theory Spec2Isabelle
  imports Complex_Main "HOL-Library.Log_Nat"
begin

section \<open>Python values shared by the embedded functions\<close>

text \<open>
  The exceptions the embedded functions can raise. Every function that may raise returns
  a value of type \<open>py_error + 'a\<close>, with \<open>Inl\<close> for the exception.
\<close>

datatype py_error =
    KeyError
  | ValueError
  | IndexError
  | TypeError
  | AttributeError
  | NameError
  | OverflowError
  | FileNotFoundError
  | RasterioIOError
  | CheckpointError

section \<open>Column reprojection (\<open>swap_observation_columns_csv\<close>)\<close>

text \<open>
  A data frame is kept column-major, as pandas keeps it: the list of its columns in
  order, each a name with the values of the column. \<open>pd.read_csv\<close> and
  \<open>DataFrame.to_csv(index=False)\<close> are treated as inverse to each other, so that a
  CSV file is identified with the frame it parses to and the file system is a map from
  paths to frames.
\<close>

type_synonym 'a frame = "(string \<times> 'a list) list"

type_synonym 'a csv_store = "string \<rightharpoonup> 'a frame"

text \<open>The fixed list of names in \<open>df[[...]]\<close>, in the order written in the source.\<close>

definition observation_columns :: "string list" where
  "observation_columns =
     [''country'', ''year'', ''cluster'', ''lon'', ''lat'', ''households'',
      ''wealthpooled'', ''urban_rural'', ''fold'']"

text \<open>
  \<open>df[[n1, ..., nk]]\<close>: for each requested name in turn, the columns of the frame
  carrying that name (all of them, when a name is duplicated in the frame); a requested
  name with no column raises \<open>KeyError\<close>.
\<close>

definition columns_named :: "string \<Rightarrow> 'a frame \<Rightarrow> 'a frame" where
  "columns_named n df = filter (\<lambda>c. fst c = n) df"

definition getitem_columns :: "string list \<Rightarrow> 'a frame \<Rightarrow> py_error + 'a frame" where
  "getitem_columns names df =
     (if list_all (\<lambda>n. n \<in> set (map fst df)) names
      then Inr (concat (map (\<lambda>n. columns_named n df) names))
      else Inl KeyError)"

definition read_csv :: "'a csv_store \<Rightarrow> string \<Rightarrow> py_error + 'a frame" where
  "read_csv store path = (case store path of None \<Rightarrow> Inl FileNotFoundError | Some df \<Rightarrow> Inr df)"

definition to_csv :: "'a csv_store \<Rightarrow> string \<Rightarrow> 'a frame \<Rightarrow> 'a csv_store" where
  "to_csv store path df = store(path \<mapsto> df)"

definition swap_observation_columns_csv ::
  "string \<Rightarrow> string \<Rightarrow> 'a csv_store \<Rightarrow> py_error + 'a csv_store" where
  "swap_observation_columns_csv csv_path output store =
     (case read_csv store csv_path of
        Inl e \<Rightarrow> Inl e
      | Inr df \<Rightarrow>
          (case getitem_columns observation_columns df of
             Inl e \<Rightarrow> Inl e
           | Inr df' \<Rightarrow> Inr (to_csv store output df')))"

text \<open>
  A small table with the columns of an observation file in another order and one column
  more, and the table its reprojection gives.
\<close>

definition example_frame :: "int frame" where
  "example_frame =
     [(''fold'', [1, 2]), (''extra'', [7, 7]), (''country'', [10, 11]), (''year'', [2013, 2014]),
      (''cluster'', [5, 6]), (''lat'', [3, 4]), (''lon'', [8, 9]), (''households'', [20, 21]),
      (''wealthpooled'', [0, 1]), (''urban_rural'', [0, 1])]"

definition example_reprojected :: "int frame" where
  "example_reprojected =
     [(''country'', [10, 11]), (''year'', [2013, 2014]), (''cluster'', [5, 6]), (''lon'', [8, 9]),
      (''lat'', [3, 4]), (''households'', [20, 21]), (''wealthpooled'', [0, 1]),
      (''urban_rural'', [0, 1]), (''fold'', [1, 2])]"

section \<open>Floating-point values\<close>

text \<open>
  A binary floating-point value is one of the three special values or a finite value,
  kept as the rational number it denotes exactly (the sign of a zero is not kept).
  \<open>round_float p emin\<close> rounds a rational to the nearest value with \<open>p\<close> significant
  bits and least exponent \<open>emin\<close>, ties to the even significand, as IEEE 754 arithmetic
  and conversions do: the result is a multiple of \<open>2 ^ e\<close> where \<open>e\<close> is the exponent
  of the last place of the binade of \<open>x\<close>, and never below \<open>emin\<close> (subnormal range).
\<close>

datatype pyfloat = NaN | PosInf | NegInf | Finite rat

definition round_half_even :: "rat \<Rightarrow> int" where
  "round_half_even x =
     (let n = \<lfloor>x\<rfloor>; d = x - of_int n
      in if d < 1 / 2 then n else if 1 / 2 < d then n + 1 else if even n then n else n + 1)"

definition pow2 :: "int \<Rightarrow> rat" where
  "pow2 e = (if 0 \<le> e then 2 ^ nat e else 1 / 2 ^ nat (- e))"

text \<open>\<open>ilog2 x\<close> is the integer part of the binary logarithm of a positive rational.\<close>

definition ilog2 :: "rat \<Rightarrow> int" where
  "ilog2 x =
     (if 1 \<le> x then int (floorlog 2 (nat \<lfloor>x\<rfloor>)) - 1
      else - int (floorlog 2 (nat \<lceil>1 / x\<rceil> - 1)))"

definition round_float :: "nat \<Rightarrow> int \<Rightarrow> rat \<Rightarrow> rat" where
  "round_float p emin x =
     (if x = 0 then 0
      else let e = max (ilog2 \<bar>x\<bar> - (int p - 1)) emin
           in of_int (round_half_even (x / pow2 e)) * pow2 e)"

text \<open>Double precision (Python \<open>float\<close>, numpy \<open>float64\<close>) and single precision.\<close>

definition double_max :: rat where
  "double_max = (2 ^ 53 - 1) * 2 ^ 971"

definition round_double :: "rat \<Rightarrow> pyfloat" where
  "round_double x =
     (let r = round_float 53 (- 1074) x
      in if double_max < r then PosInf else if r < - double_max then NegInf else Finite r)"

definition float32_max :: rat where
  "float32_max = (2 ^ 24 - 1) * 2 ^ 104"

definition round_float32 :: "rat \<Rightarrow> pyfloat" where
  "round_float32 x =
     (let r = round_float 24 (- 149) x
      in if float32_max < r then PosInf else if r < - float32_max then NegInf else Finite r)"

text \<open>\<open>torch.tensor(v, dtype=torch.float32)\<close> on one float64 value.\<close>

fun to_float32 :: "pyfloat \<Rightarrow> pyfloat" where
  "to_float32 NaN = NaN"
| "to_float32 PosInf = PosInf"
| "to_float32 NegInf = NegInf"
| "to_float32 (Finite v) = round_float32 v"

text \<open>
  \<open>np.nan_to_num\<close> with its default arguments on one float64 value: NaN becomes 0.0
  and the infinities become the largest and the smallest finite double.
\<close>

fun nan_to_num :: "pyfloat \<Rightarrow> pyfloat" where
  "nan_to_num NaN = Finite 0"
| "nan_to_num PosInf = Finite double_max"
| "nan_to_num NegInf = Finite (- double_max)"
| "nan_to_num (Finite v) = Finite v"

text \<open>
  \<open>n * f\<close> for a Python \<open>int\<close> and a finite \<open>float\<close>: the integer is converted to a
  double (\<open>OverflowError\<close> when it is too large), and the product is rounded once.
\<close>

definition int_times_float :: "int \<Rightarrow> rat \<Rightarrow> py_error + pyfloat" where
  "int_times_float n f =
     (case round_double (of_int n) of
        Finite a \<Rightarrow> Inr (round_double (a * f))
      | _ \<Rightarrow> Inl OverflowError)"

text \<open>\<open>int(x)\<close> on a float: truncation towards zero; the special values raise.\<close>

fun py_int :: "pyfloat \<Rightarrow> py_error + int" where
  "py_int NaN = Inl ValueError"
| "py_int PosInf = Inl OverflowError"
| "py_int NegInf = Inl OverflowError"
| "py_int (Finite r) = Inr (if 0 \<le> r then \<lfloor>r\<rfloor> else \<lceil>r\<rceil>)"

section \<open>Python sequences and strings\<close>

text \<open>\<open>xs[a:b]\<close>: a negative bound counts from the end, and bounds are clamped.\<close>

definition py_slice :: "'a list \<Rightarrow> int \<Rightarrow> int \<Rightarrow> 'a list" where
  "py_slice xs a b =
     (let n = int (length xs);
          lo = (if a < 0 then max (a + n) 0 else min a n);
          hi = (if b < 0 then max (b + n) 0 else min b n)
      in take (nat (hi - lo)) (drop (nat lo) xs))"

text \<open>\<open>xs[i]\<close> for a position \<open>i\<close>, as \<open>DataFrame.iloc[i]\<close> reads a row.\<close>

definition iloc :: "'a list \<Rightarrow> int \<Rightarrow> py_error + 'a" where
  "iloc xs i =
     (if 0 \<le> i \<and> i < int (length xs) then Inr (xs ! nat i)
      else if i < 0 \<and> - int (length xs) \<le> i then Inr (xs ! nat (int (length xs) + i))
      else Inl IndexError)"

text \<open>\<open>str(n)\<close> for an integer.\<close>

fun str_nat :: "nat \<Rightarrow> string" where
  "str_nat n =
     (if n < 10 then [''0123456789'' ! n]
      else str_nat (n div 10) @ [''0123456789'' ! (n mod 10)])"

declare str_nat.simps [simp del]

definition str_int :: "int \<Rightarrow> string" where
  "str_int i = (if i < 0 then CHR ''-'' # str_nat (nat (- i)) else str_nat (nat i))"

text \<open>\<open>str(s)\<close> for a string is the string.\<close>

definition str :: "string \<Rightarrow> string" where
  "str s = s"

text \<open>\<open>os.path.join(a, *p)\<close> of \<open>posixpath\<close>.\<close>

fun path_join :: "string \<Rightarrow> string list \<Rightarrow> string" where
  "path_join path [] = path"
| "path_join path (b # p) =
     (if b \<noteq> [] \<and> hd b = CHR ''/'' then path_join b p
      else if path = [] \<or> last path = CHR ''/'' then path_join (path @ b) p
      else path_join (path @ ''/'' @ b) p)"

section \<open>The data module (\<open>PovertyDataModule\<close>) and its split\<close>

text \<open>
  One row of the observation table as \<open>pd.read_csv\<close> loads it, with the columns of the
  tabular file format typed as the data model gives them.
\<close>

record row =
  country :: string
  year :: int
  cluster :: int
  lon :: pyfloat
  lat :: pyfloat
  households :: int
  wealthpooled :: pyfloat
  urban_rural :: int
  fold :: int

record MSDataset =
  dataframe :: "row list"
  root_dir :: string

definition len :: "MSDataset \<Rightarrow> nat" where
  "len self = length (dataframe self)"

text \<open>\<open>torch.utils.data.Subset\<close>: a dataset seen through a list of positions.\<close>

record Subset =
  dataset :: MSDataset
  indices :: "nat list"

text \<open>
  The attributes of the data module that are plain data; \<open>train_dataset\<close> and
  \<open>val_dataset\<close> exist only after \<open>setup\<close>.
\<close>

record PovertyDataModule =
  dm_dataframe :: "row list"
  tif_dir :: string
  train_batch_size :: int
  inference_batch_size :: int
  val_split :: rat
  num_workers :: int
  train_dataset :: "Subset option"
  val_dataset :: "Subset option"

text \<open>The named parameters of \<open>__init__\<close> with their defaults.\<close>

record init_args =
  arg_tif_dir :: string
  arg_dataset_path :: string
  arg_labels_name :: string
  arg_train_batch_size :: int
  arg_inference_batch_size :: int
  arg_num_workers :: int
  arg_cach_data :: bool
  arg_val_split :: rat

definition default_args :: init_args where
  "default_args =
     \<lparr>arg_tif_dir = ''landsat_tiles/'', arg_dataset_path = ''examples/poverty/dataset/'',
      arg_labels_name = ''observation_2013+.csv'', arg_train_batch_size = 32,
      arg_inference_batch_size = 16, arg_num_workers = 8, arg_cach_data = True,
      arg_val_split = 3602879701896397 / 18014398509481984\<rparr>"

text \<open>
  \<open>__init__(self, ..., **kwargs)\<close>. The label files on disk are a map from paths to the
  tables they parse to. \<open>kwargs\<close> collects every keyword argument that is not a named
  parameter; the body never reads it.
\<close>

definition PovertyDataModule_init ::
  "(string \<rightharpoonup> row list) \<Rightarrow> init_args \<Rightarrow> (string \<times> 'k) list \<Rightarrow> py_error + PovertyDataModule" where
  "PovertyDataModule_init files args kwargs =
     (case files (arg_dataset_path args @ arg_labels_name args) of
        None \<Rightarrow> Inl FileNotFoundError
      | Some df \<Rightarrow>
          Inr \<lparr>dm_dataframe = df,
               tif_dir = arg_dataset_path args @ arg_tif_dir args,
               train_batch_size = arg_train_batch_size args,
               inference_batch_size = arg_inference_batch_size args,
               val_split = arg_val_split args,
               num_workers = arg_num_workers args,
               train_dataset = None,
               val_dataset = None\<rparr>)"

definition get_dataset :: "PovertyDataModule \<Rightarrow> MSDataset" where
  "get_dataset self = \<lparr>dataframe = dm_dataframe self, root_dir = tif_dir self\<rparr>"

text \<open>
  \<open>torch.utils.data.random_split(dataset, lengths)\<close> for integer lengths. Lengths
  that sum to 1 are read as fractions of the dataset: each must lie between 0 and 1
  (\<open>ValueError\<close>) and stands for that fraction of the length; as integers they are
  one 1 among zeros, so nothing remains to be spread over the subsets. Otherwise the
  lengths must sum to the length of the dataset (\<open>ValueError\<close>). The positions are
  drawn as one random permutation \<open>perm\<close> of \<open>0, ..., n - 1\<close> (the result of
  \<open>randperm\<close>, an input of the model), which is cut at the running sums of the
  lengths.
\<close>

fun accumulate :: "int \<Rightarrow> int list \<Rightarrow> int list" where
  "accumulate acc [] = []"
| "accumulate acc (l # ls) = (acc + l) # accumulate (acc + l) ls"

definition is_randperm :: "nat \<Rightarrow> nat list \<Rightarrow> bool" where
  "is_randperm n perm = (distinct perm \<and> set perm = {..<n})"

definition split_at :: "nat list \<Rightarrow> MSDataset \<Rightarrow> int list \<Rightarrow> Subset list" where
  "split_at perm ds lengths =
     map (\<lambda>(offset, l). \<lparr>dataset = ds, indices = py_slice perm (offset - l) offset\<rparr>)
       (zip (accumulate 0 lengths) lengths)"

definition random_split :: "nat list \<Rightarrow> MSDataset \<Rightarrow> int list \<Rightarrow> py_error + Subset list" where
  "random_split perm ds lengths =
     (if sum_list lengths = 1
      then (if list_ex (\<lambda>frac. frac < 0 \<or> 1 < frac) lengths then Inl ValueError
            else Inr (split_at perm ds (map (\<lambda>frac. int (len ds) * frac) lengths)))
      else if sum_list lengths \<noteq> int (len ds) then Inl ValueError
      else Inr (split_at perm ds lengths))"

text \<open>
  The method \<open>setup\<close> of the data module (named \<open>dm_setup\<close> here). Unpacking the result of \<open>random_split\<close> into two names raises
  \<open>ValueError\<close> unless it has exactly two elements.
\<close>

definition dm_setup :: "nat list \<Rightarrow> PovertyDataModule \<Rightarrow> py_error + PovertyDataModule" where
  "dm_setup perm self =
     (let full_dataset = \<lparr>dataframe = dm_dataframe self, root_dir = tif_dir self\<rparr> in
      case int_times_float (int (len full_dataset)) (val_split self) of
        Inl e \<Rightarrow> Inl e
      | Inr product \<Rightarrow>
          (case py_int product of
             Inl e \<Rightarrow> Inl e
           | Inr val_size \<Rightarrow>
               (let train_size = int (len full_dataset) - val_size in
                case random_split perm full_dataset [train_size, val_size] of
                  Inl e \<Rightarrow> Inl e
                | Inr [train, val] \<Rightarrow> Inr (self\<lparr>train_dataset := Some train, val_dataset := Some val\<rparr>)
                | Inr _ \<Rightarrow> Inl ValueError)))"


text \<open>Example tables: an observation of a given cluster and fold, and data modules over them.\<close>

definition observation :: "int \<Rightarrow> int \<Rightarrow> row" where
  "observation c k =
     \<lparr>country = ''angola'', year = 2011, cluster = c, lon = Finite 0, lat = Finite 0,
      households = 1, wealthpooled = Finite 0, urban_rural = 0, fold = k\<rparr>"

definition example_module :: "row list \<Rightarrow> rat \<Rightarrow> PovertyDataModule" where
  "example_module df f =
     \<lparr>dm_dataframe = df, tif_dir = ''examples/poverty/dataset/landsat_tiles/'',
      train_batch_size = 32, inference_batch_size = 16, val_split = f, num_workers = 8,
      train_dataset = None, val_dataset = None\<rparr>"

text \<open>The doubles nearest to 0.2 and to 1/3 (printed \<open>0.3333333333333333\<close>).\<close>

definition double_0_2 :: rat where
  "double_0_2 = 3602879701896397 / 18014398509481984"

definition double_third :: rat where
  "double_third = 6004799503160661 / 18014398509481984"

definition hundred_module :: PovertyDataModule where
  "hundred_module = example_module (map (\<lambda>c. observation (int c) 1) [0..<100]) double_0_2"

definition three_module :: PovertyDataModule where
  "three_module = example_module [observation 0 1, observation 1 2, observation 2 3] double_third"

text \<open>
  A label file of five observations with folds 1, 1, 2, 3, 4, at the default path, and
  the data module that the constructor builds from it.
\<close>

definition fold_table :: "row list" where
  "fold_table = [observation 0 1, observation 1 1, observation 2 2, observation 3 3, observation 4 4]"

definition fold_files :: "string \<rightharpoonup> row list" where
  "fold_files = [''examples/poverty/dataset/observation_2013+.csv'' \<mapsto> fold_table]"

definition fold_module :: PovertyDataModule where
  "fold_module = example_module fold_table double_0_2"

section \<open>Raster tiles and the item accessor (\<open>MSDataset.__getitem__\<close>)\<close>

text \<open>
  A raster file as \<open>rasterio.open\<close> gives it: \<open>count\<close> bands numbered from 1, each
  an array of \<open>height\<close> rows and \<open>width\<close> columns. A pixel is kept as the float64
  value it becomes when it is stored into the float64 buffer. The tile files on disk
  are a map from paths to files; a file is a raster or something \<open>rasterio\<close> cannot
  read. Opening a path with no file, or with an unreadable one, raises.
\<close>

record raster =
  count :: nat
  height :: nat
  width :: nat
  pixel :: "nat \<Rightarrow> nat \<Rightarrow> nat \<Rightarrow> pyfloat"

datatype tile_file = Unreadable | Raster raster

type_synonym band = "pyfloat list list"

type_synonym tile = "band list"

definition indexes :: "raster \<Rightarrow> nat list" where
  "indexes src = [1..<Suc (count src)]"

definition read_band :: "raster \<Rightarrow> nat \<Rightarrow> band" where
  "read_band src b = map (\<lambda>i. map (\<lambda>j. pixel src b i j) [0..<width src]) [0..<height src]"

definition rasterio_open :: "(string \<rightharpoonup> tile_file) \<Rightarrow> string \<Rightarrow> py_error + raster" where
  "rasterio_open files name =
     (case files name of
        None \<Rightarrow> Inl RasterioIOError
      | Some Unreadable \<Rightarrow> Inl RasterioIOError
      | Some (Raster src) \<Rightarrow> Inr src)"

text \<open>
  \<open>np.empty([7, 255, 255])\<close>: an array of that shape whose entries are not
  initialised. What the memory held is an input of the model, \<open>uninitialized\<close>.
\<close>

definition tile_bands :: nat where
  "tile_bands = 7"

definition tile_size :: nat where
  "tile_size = 255"

definition np_empty :: "(nat \<Rightarrow> nat \<Rightarrow> nat \<Rightarrow> pyfloat) \<Rightarrow> tile" where
  "np_empty uninitialized =
     map (\<lambda>b. map (\<lambda>i. map (\<lambda>j. uninitialized b i j) [0..<tile_size]) [0..<tile_size])
       [0..<tile_bands]"

text \<open>
  \<open>tile[k, :, :] = arr\<close>: the position must exist (\<open>IndexError\<close>), then the array is
  broadcast to 255 by 255, an axis of length one being repeated (\<open>ValueError\<close> when a
  length is neither 255 nor 1).
\<close>

definition broadcast_band :: "band \<Rightarrow> py_error + band" where
  "broadcast_band arr =
     (let h = length arr; w = (case arr of [] \<Rightarrow> 0 | line # _ \<Rightarrow> length line)
      in if (h = tile_size \<or> h = 1) \<and> (w = tile_size \<or> w = 1)
         then Inr (map (\<lambda>i. map (\<lambda>j. arr ! (if h = 1 then 0 else i) ! (if w = 1 then 0 else j))
                            [0..<tile_size]) [0..<tile_size])
         else Inl ValueError)"

definition setitem_band :: "tile \<Rightarrow> nat \<Rightarrow> band \<Rightarrow> py_error + tile" where
  "setitem_band tile k arr =
     (if length tile \<le> k then Inl IndexError
      else case broadcast_band arr of Inl e \<Rightarrow> Inl e | Inr a \<Rightarrow> Inr (tile[k := a]))"

text \<open>The loop \<open>for band in ...: tile[band-1, :, :] = src.read(band)\<close>.\<close>

fun read_bands :: "raster \<Rightarrow> nat list \<Rightarrow> tile \<Rightarrow> py_error + tile" where
  "read_bands src [] tile = Inr tile"
| "read_bands src (band # bands) tile =
     (case setitem_band tile (band - 1) (read_band src band) of
        Inl e \<Rightarrow> Inl e
      | Inr tile' \<Rightarrow> read_bands src bands tile')"

text \<open>
  \<open>__getitem__\<close>: the row at \<open>idx\<close>, its label, the name of its tile file, the
  buffer, the bands \<open>src.indexes[0:-1]\<close> read into it, \<open>np.nan_to_num\<close>, and the two
  float32 tensors.
\<close>

definition getitem ::
  "(string \<rightharpoonup> tile_file) \<Rightarrow> (nat \<Rightarrow> nat \<Rightarrow> nat \<Rightarrow> pyfloat) \<Rightarrow> MSDataset \<Rightarrow> int \<Rightarrow>
     py_error + tile \<times> pyfloat" where
  "getitem files uninitialized self idx =
     (case iloc (dataframe self) idx of
        Inl e \<Rightarrow> Inl e
      | Inr r \<Rightarrow>
          (let value = wealthpooled r;
               tile_name = path_join (root_dir self)
                 [str (country r) @ ''_'' @ str_int (year r), str_int (cluster r) @ ''.tif''];
               tile = np_empty uninitialized
           in case rasterio_open files tile_name of
                Inl e \<Rightarrow> Inl e
              | Inr src \<Rightarrow>
                  (case read_bands src (py_slice (indexes src) 0 (- 1)) tile of
                     Inl e \<Rightarrow> Inl e
                   | Inr tile' \<Rightarrow>
                       Inr (map (map (map (\<lambda>v. to_float32 (nan_to_num v)))) tile',
                            to_float32 value))))"

text \<open>The name of the tile file of a row, as the accessor builds it.\<close>

definition tile_name_of :: "MSDataset \<Rightarrow> row \<Rightarrow> string" where
  "tile_name_of self r =
     path_join (root_dir self)
       [str (country r) @ ''_'' @ str_int (year r), str_int (cluster r) @ ''.tif'']"

text \<open>
  Whether a result is a raised exception, and whether the tile file of the row at a
  position, when the row and the file exist, has the eight bands of the tile file format
  (or more).
\<close>

definition raises :: "py_error + 'a \<Rightarrow> bool" where
  "raises res = (case res of Inl _ \<Rightarrow> True | Inr _ \<Rightarrow> False)"

definition tile_complete :: "(string \<rightharpoonup> tile_file) \<Rightarrow> MSDataset \<Rightarrow> int \<Rightarrow> bool" where
  "tile_complete files self idx =
     (case iloc (dataframe self) idx of
        Inl _ \<Rightarrow> True
      | Inr r \<Rightarrow>
          (case files (tile_name_of self r) of
             None \<Rightarrow> True
           | Some Unreadable \<Rightarrow> True
           | Some (Raster src) \<Rightarrow> 8 \<le> count src))"

text \<open>
  Examples: a dataset of one observation, a raster with a given number of bands in which
  band 4 is NaN everywhere and every other pixel is zero, the store holding it as the
  tile of the observation, and memory holding one value everywhere.
\<close>

definition example_dataset :: MSDataset where
  "example_dataset = \<lparr>dataframe = [observation 7 1], root_dir = ''tiles''\<rparr>"

definition example_raster :: "nat \<Rightarrow> raster" where
  "example_raster c =
     \<lparr>count = c, height = 255, width = 255,
      pixel = (\<lambda>b i j. if b = 4 then NaN else Finite 0)\<rparr>"

definition example_tiles :: "nat \<Rightarrow> (string \<rightharpoonup> tile_file)" where
  "example_tiles c = [''tiles/angola_2011/7.tif'' \<mapsto> Raster (example_raster c)]"

definition constant_memory :: "pyfloat \<Rightarrow> nat \<Rightarrow> nat \<Rightarrow> nat \<Rightarrow> pyfloat" where
  "constant_memory v = (\<lambda>b i j. v)"

section \<open>The crash handler (\<open>CrashHandler\<close>)\<close>

text \<open>
  A \<open>pathlib\<close> path: the path made from a string, or a path extended by the \<open>/\<close>
  operator.
\<close>

datatype pathlib = Path string | Div pathlib string

record CrashHandler =
  ckpt_dir_path :: pathlib

text \<open>
  The part of the running process the handler touches: what has been printed, the state
  of the trainer (of any type), and the handler installed for each signal number. A
  handler installed by this code is the \<open>signal_handler\<close> method of a \<open>CrashHandler\<close>.
  The trainer belongs to the training framework: its log directory \<open>log_dir\<close> and its
  method \<open>save_checkpoint\<close>, which returns the new state of the trainer and the
  exception it raised, if any, are inputs of the model.
\<close>

record 'tr process =
  stdout :: "string list"
  trainer :: 'tr
  handlers :: "int \<rightharpoonup> CrashHandler"

definition SIGINT :: int where
  "SIGINT = 2"

definition print :: "string \<Rightarrow> 'tr process \<Rightarrow> 'tr process" where
  "print s p = p\<lparr>stdout := stdout p @ [s]\<rparr>"

definition CrashHandler_init :: "('tr \<Rightarrow> string) \<Rightarrow> 'tr process \<Rightarrow> CrashHandler \<times> 'tr process" where
  "CrashHandler_init log_dir p =
     (let self = \<lparr>ckpt_dir_path = Div (Path (log_dir (trainer p))) ''crash_latest_checkpoint.ckpt''\<rparr>
      in (self, p\<lparr>handlers := (handlers p)(SIGINT \<mapsto> self)\<rparr>))"

definition save_checkpoint ::
  "('tr \<Rightarrow> pathlib \<Rightarrow> 'tr \<times> py_error option) \<Rightarrow> CrashHandler \<Rightarrow> 'tr process \<Rightarrow>
     'tr process \<times> py_error option" where
  "save_checkpoint trainer_save_checkpoint self p =
     (let p1 = print ''Saving lastest checkpoint...'' p;
          (t, raised) = trainer_save_checkpoint (trainer p1) (ckpt_dir_path self)
      in (p1\<lparr>trainer := t\<rparr>, raised))"

text \<open>
  How a call that does not return leaves: \<open>exit(code)\<close> raises \<open>SystemExit\<close>, anything
  else is an exception that propagates to the caller.
\<close>

datatype unwinding = SystemExit int | Raised py_error

definition signal_handler ::
  "('tr \<Rightarrow> pathlib \<Rightarrow> 'tr \<times> py_error option) \<Rightarrow> CrashHandler \<Rightarrow> int \<Rightarrow> 'tr process \<Rightarrow>
     'tr process \<times> unwinding" where
  "signal_handler trainer_save_checkpoint self sig p =
     (let p1 = print (''Received signal '' @ str_int sig @ ''. Performing cleanup...'') p
      in case save_checkpoint trainer_save_checkpoint self p1 of
           (p2, Some e) \<Rightarrow> (p2, Raised e)
         | (p2, None) \<Rightarrow> (p2, SystemExit 0))"

text \<open>
  The arrival of a signal runs the handler installed for it (\<open>None\<close> when this code
  installed none). An unwinding that nothing in the interrupted program catches ends
  the interpreter: with the code of \<open>SystemExit\<close>, with status 1 for an exception.
\<close>

definition deliver ::
  "('tr \<Rightarrow> pathlib \<Rightarrow> 'tr \<times> py_error option) \<Rightarrow> int \<Rightarrow> 'tr process \<Rightarrow>
     ('tr process \<times> unwinding) option" where
  "deliver trainer_save_checkpoint sig p =
     (case handlers p sig of
        None \<Rightarrow> None
      | Some self \<Rightarrow> Some (signal_handler trainer_save_checkpoint self sig p))"

fun exit_status :: "unwinding \<Rightarrow> int" where
  "exit_status (SystemExit code) = code"
| "exit_status (Raised e) = 1"

text \<open>
  Examples: a trainer whose state is the list of checkpoints written, with a save that
  succeeds and one that fails with its file half written.
\<close>

definition example_process :: "pathlib list process" where
  "example_process = \<lparr>stdout = [], trainer = [], handlers = Map.empty\<rparr>"


definition failing_trainer :: "pathlib list \<Rightarrow> pathlib \<Rightarrow> pathlib list \<times> py_error option" where
  "failing_trainer t path = (t, Some CheckpointError)"

section \<open>Metric specifications (\<open>check_metric\<close>)\<close>

text \<open>
  Python values as a configuration holds them. The argument of \<open>check_metric\<close> is an
  OmegaConf container (\<open>DictConfig\<close>, \<open>ListConfig\<close>) or some other value.
\<close>

datatype pyval =
    PyNone
  | PyInt int
  | PyStr string
  | PyCallable string
  | PyList "pyval list"
  | PyDict "(string \<times> pyval) list"

datatype config = DictConfig "(string \<times> pyval) list" | ListConfig "pyval list" | NotConfig pyval

definition FMETRICS_CALLABLES :: "(string \<times> pyval) list" where
  "FMETRICS_CALLABLES =
     [(''binary_accuracy'', PyCallable ''Fmetrics.classification.binary_accuracy''),
      (''multiclass_accuracy'', PyCallable ''Fmetrics.classification.multiclass_accuracy''),
      (''multilabel_accuracy'', PyCallable ''Fmetrics.classification.multilabel_accuracy'')]"

text \<open>\<open>OmegaConf.to_container\<close>: \<open>ValueError\<close> when the argument is not a container.\<close>

fun to_container :: "config \<Rightarrow> py_error + pyval" where
  "to_container (DictConfig kvs) = Inr (PyDict kvs)"
| "to_container (ListConfig vs) = Inr (PyList vs)"
| "to_container (NotConfig v) = Inl ValueError"

text \<open>\<open>sub in s\<close> for strings, \<open>key in v\<close>, \<open>v[key]\<close> and \<open>v[key] = x\<close> for a string key.\<close>

fun is_substring :: "string \<Rightarrow> string \<Rightarrow> bool" where
  "is_substring sub [] = (sub = [])"
| "is_substring sub (c # cs) = (take (length sub) (c # cs) = sub \<or> is_substring sub cs)"

fun py_contains :: "string \<Rightarrow> pyval \<Rightarrow> py_error + bool" where
  "py_contains key (PyDict kvs) = Inr (key \<in> set (map fst kvs))"
| "py_contains key (PyList vs) = Inr (PyStr key \<in> set vs)"
| "py_contains key (PyStr s) = Inr (is_substring key s)"
| "py_contains key _ = Inl TypeError"

fun py_getitem :: "pyval \<Rightarrow> string \<Rightarrow> py_error + pyval" where
  "py_getitem (PyDict kvs) key = (case map_of kvs key of None \<Rightarrow> Inl KeyError | Some v \<Rightarrow> Inr v)"
| "py_getitem _ key = Inl TypeError"

fun dict_set :: "string \<Rightarrow> pyval \<Rightarrow> (string \<times> pyval) list \<Rightarrow> (string \<times> pyval) list" where
  "dict_set key x [] = [(key, x)]"
| "dict_set key x ((k, v) # kvs) = (if k = key then (k, x) # kvs else (k, v) # dict_set key x kvs)"

fun py_setitem :: "pyval \<Rightarrow> string \<Rightarrow> pyval \<Rightarrow> py_error + pyval" where
  "py_setitem (PyDict kvs) key x = Inr (PyDict (dict_set key x kvs))"
| "py_setitem _ key x = Inl TypeError"

text \<open>
  \<open>eval(x)\<close>: the argument must be a string; what a string evaluates to, or the
  exception it raises, is the input \<open>py_eval\<close> of the model.
\<close>

fun eval_value :: "(string \<Rightarrow> py_error + pyval) \<Rightarrow> pyval \<Rightarrow> py_error + pyval" where
  "eval_value py_eval (PyStr s) = py_eval s"
| "eval_value py_eval _ = Inl TypeError"

text \<open>One pass of the loop body, for the entry \<open>k, v\<close>; it gives the new \<open>metrics[k]\<close>.\<close>

definition resolve_entry :: "(string \<Rightarrow> py_error + pyval) \<Rightarrow> string \<Rightarrow> pyval \<Rightarrow> py_error + pyval" where
  "resolve_entry py_eval k v =
     (case py_contains ''callable'' v of
        Inl e \<Rightarrow> Inl e
      | Inr True \<Rightarrow>
          (case py_getitem v ''callable'' of
             Inl e \<Rightarrow> Inl e
           | Inr x \<Rightarrow>
               (case eval_value py_eval x of
                  Inl e \<Rightarrow> Inl e
                | Inr c \<Rightarrow> py_setitem v ''callable'' c))
      | Inr False \<Rightarrow>
          (case map_of FMETRICS_CALLABLES k of
             None \<Rightarrow> Inl KeyError
           | Some c \<Rightarrow> py_setitem v ''callable'' c))"

fun resolve_items ::
  "(string \<Rightarrow> py_error + pyval) \<Rightarrow> (string \<times> pyval) list \<Rightarrow> py_error + (string \<times> pyval) list" where
  "resolve_items py_eval [] = Inr []"
| "resolve_items py_eval ((k, v) # items) =
     (case resolve_entry py_eval k v of
        Inl e \<Rightarrow> Inl e
      | Inr v' \<Rightarrow>
          (case resolve_items py_eval items of
             Inl e \<Rightarrow> Inl e
           | Inr items' \<Rightarrow> Inr ((k, v') # items')))"

text \<open>The body of the \<open>try\<close>: \<open>.items()\<close> exists on a dict only.\<close>

definition resolve_metrics :: "(string \<Rightarrow> py_error + pyval) \<Rightarrow> config \<Rightarrow> py_error + pyval" where
  "resolve_metrics py_eval metrics =
     (case to_container metrics of
        Inl e \<Rightarrow> Inl e
      | Inr (PyDict kvs) \<Rightarrow>
          (case resolve_items py_eval kvs of Inl e \<Rightarrow> Inl e | Inr kvs' \<Rightarrow> Inr (PyDict kvs'))
      | Inr _ \<Rightarrow> Inl AttributeError)"

text \<open>
  What \<open>check_metric\<close> prints: one of its two warnings, then the text of the exception.
  The function gives what it printed and what it returns or raises.
\<close>

datatype printed = WarningNotDictLike | WarningNotRegistered | ExceptionText py_error

definition check_metric ::
  "(string \<Rightarrow> py_error + pyval) \<Rightarrow> config \<Rightarrow> printed list \<times> (py_error + pyval)" where
  "check_metric py_eval metrics =
     (case resolve_metrics py_eval metrics of
        Inl ValueError \<Rightarrow> ([WarningNotDictLike, ExceptionText ValueError], Inr PyNone)
      | Inl KeyError \<Rightarrow> ([WarningNotRegistered, ExceptionText KeyError], Inr PyNone)
      | Inl e \<Rightarrow> ([], Inl e)
      | Inr m \<Rightarrow> ([], Inr m))"

text \<open>An \<open>eval\<close> in whose scope no name is bound.\<close>

definition empty_scope :: "string \<Rightarrow> py_error + pyval" where
  "empty_scope s = Inl NameError"

section \<open>Properties of the column reprojection\<close>

lemma distinct_observation_columns: "distinct observation_columns"
  by (simp add: observation_columns_def)

lemma columns_named_twice:
  "columns_named n (columns_named m df) = (if n = m then columns_named m df else [])"
  by (induction df) (simp_all add: columns_named_def)

lemma columns_named_append:
  "columns_named n (xs @ ys) = columns_named n xs @ columns_named n ys"
  by (simp add: columns_named_def)

lemma columns_named_concat:
  "distinct names \<Longrightarrow>
   columns_named n (concat (map (\<lambda>m. columns_named m df) names)) =
     (if n \<in> set names then columns_named n df else [])"
proof (induction names)
  case Nil
  then show ?case by (simp add: columns_named_def)
next
  case (Cons m names)
  then have IH: "columns_named n (concat (map (\<lambda>m. columns_named m df) names)) =
      (if n \<in> set names then columns_named n df else [])"
    and fresh: "m \<notin> set names"
    by simp_all
  show ?case
  proof (cases "n = m")
    case True
    with IH fresh show ?thesis
      by (simp add: columns_named_append columns_named_twice)
  next
    case False
    with IH show ?thesis
      by (simp add: columns_named_append columns_named_twice)
  qed
qed

lemma names_present_after_select:
  assumes "list_all (\<lambda>n. n \<in> set (map fst df)) names"
  shows "list_all (\<lambda>n. n \<in> set (map fst (concat (map (\<lambda>m. columns_named m df) names)))) names"
proof -
  have own: "n \<in> fst ` set (columns_named n df)" if "n \<in> fst ` set df" for n
    using that by (auto simp: columns_named_def image_iff)
  have "n \<in> set (map fst (concat (map (\<lambda>m. columns_named m df) names)))"
    if "n \<in> set names" for n
  proof -
    from assms that have "n \<in> fst ` set df"
      by (simp add: list_all_iff)
    then have "n \<in> fst ` set (columns_named n df)"
      by (rule own)
    with that show ?thesis
      by (simp add: image_iff) blast
  qed
  then show ?thesis
    by (simp only: list_all_iff) blast
qed

lemma getitem_columns_idem:
  assumes "distinct names" and "getitem_columns names df = Inr df'"
  shows "getitem_columns names df' = Inr df'"
proof -
  from assms(2) have present: "list_all (\<lambda>n. n \<in> set (map fst df)) names"
    and df': "df' = concat (map (\<lambda>n. columns_named n df) names)"
    by (auto simp: getitem_columns_def split: if_splits)
  have same: "map (\<lambda>n. columns_named n df') names = map (\<lambda>n. columns_named n df) names"
    unfolding df' using assms(1) by (simp add: columns_named_concat)
  have still: "list_all (\<lambda>n. n \<in> set (map fst df')) names"
    unfolding df' by (rule names_present_after_select [OF present])
  have "getitem_columns names df' = Inr (concat (map (\<lambda>n. columns_named n df') names))"
    unfolding getitem_columns_def using still by simp
  also have "\<dots> = Inr df'"
    unfolding same by (simp only: df')
  finally show ?thesis .
qed

lemma getitem_columns_subset:
  "getitem_columns names df = Inr df' \<Longrightarrow> set df' \<subseteq> set df"
  by (auto simp: getitem_columns_def columns_named_def split: if_splits)

lemma getitem_columns_names:
  assumes "distinct (map fst df)" and "getitem_columns names df = Inr df'"
  shows "map fst df' = names"
proof -
  have one: "n \<in> fst ` set df \<Longrightarrow> map fst (columns_named n df) = [n]" for n
    using assms(1)
  proof (induction df)
    case Nil
    then show ?case by simp
  next
    case (Cons c df)
    then show ?case
      by (cases "fst c = n") (auto simp: columns_named_def image_iff filter_empty_conv)
  qed
  from assms(2) have present: "\<forall>n \<in> set names. n \<in> fst ` set df"
    and df': "df' = concat (map (\<lambda>n. columns_named n df) names)"
    by (auto simp: getitem_columns_def list_all_iff split: if_splits)
  from present show ?thesis
    unfolding df' by (induction names) (simp_all add: one)
qed

text \<open>
  C9. Reprojecting a table onto the fixed columns is idempotent: when the reprojection of
  a frame succeeds, reprojecting its result succeeds and returns that result unchanged.
  The result is made of columns of the input only, each with its name and its values as
  they were (nothing renamed, nothing derived), and when the input has no duplicated
  column name the columns of the result are exactly the nine fixed names in their fixed
  order. On files: after a successful run from \<open>csv_path\<close> to \<open>output\<close>, running the
  reprojection on \<open>output\<close> in place leaves the store as it is.
\<close>

theorem reprojection_idempotent:
  assumes "getitem_columns observation_columns df = Inr df'"
  shows "getitem_columns observation_columns df' = Inr df' \<and>
         set df' \<subseteq> set df \<and>
         (distinct (map fst df) \<longrightarrow> map fst df' = observation_columns) \<and>
         (swap_observation_columns_csv csv_path output store = Inr store' \<longrightarrow>
          swap_observation_columns_csv output output store' = Inr store')"
proof (intro conjI impI)
  show "getitem_columns observation_columns df' = Inr df'"
    using assms by (rule getitem_columns_idem [OF distinct_observation_columns])
  show "set df' \<subseteq> set df"
    using assms by (rule getitem_columns_subset)
  show "map fst df' = observation_columns" if "distinct (map fst df)"
    using that assms by (rule getitem_columns_names)
  show "swap_observation_columns_csv output output store' = Inr store'"
    if run: "swap_observation_columns_csv csv_path output store = Inr store'"
  proof -
    from run obtain d d' where sel: "getitem_columns observation_columns d = Inr d'"
      and st: "store' = store(output \<mapsto> d')"
      by (auto simp: swap_observation_columns_csv_def read_csv_def to_csv_def
          split: option.splits sum.splits)
    have again: "getitem_columns observation_columns d' = Inr d'"
      using sel by (rule getitem_columns_idem [OF distinct_observation_columns])
    show ?thesis
      by (simp add: swap_observation_columns_csv_def read_csv_def to_csv_def st again)
  qed
qed

lemma example_frame_select:
  "getitem_columns observation_columns example_frame = Inr example_reprojected"
  by (simp add: getitem_columns_def columns_named_def observation_columns_def
      example_frame_def example_reprojected_def)

lemma example_swap:
  "swap_observation_columns_csv ''in.csv'' ''out.csv'' [''in.csv'' \<mapsto> example_frame] =
     Inr [''in.csv'' \<mapsto> example_frame, ''out.csv'' \<mapsto> example_reprojected]"
  by (simp add: swap_observation_columns_csv_def read_csv_def to_csv_def example_frame_select)

theorem reprojection_idempotent_witness:
  "getitem_columns observation_columns example_frame = Inr example_reprojected \<and>
   distinct (map fst example_frame) \<and>
   swap_observation_columns_csv ''in.csv'' ''out.csv'' [''in.csv'' \<mapsto> example_frame] =
     Inr [''in.csv'' \<mapsto> example_frame, ''out.csv'' \<mapsto> example_reprojected] \<and>
   getitem_columns observation_columns example_reprojected = Inr example_reprojected \<and>
   set example_reprojected \<subseteq> set example_frame \<and>
   map fst example_reprojected = observation_columns \<and>
   swap_observation_columns_csv ''out.csv'' ''out.csv''
     [''in.csv'' \<mapsto> example_frame, ''out.csv'' \<mapsto> example_reprojected] =
     Inr [''in.csv'' \<mapsto> example_frame, ''out.csv'' \<mapsto> example_reprojected]"
proof -
  have d: "distinct (map fst example_frame)"
    by (simp add: example_frame_def)
  from reprojection_idempotent [OF example_frame_select,
      of "''in.csv''" "''out.csv''" "[''in.csv'' \<mapsto> example_frame]"
         "[''in.csv'' \<mapsto> example_frame, ''out.csv'' \<mapsto> example_reprojected]"]
  show ?thesis
    using example_frame_select example_swap d by blast
qed

section \<open>Properties of the floating-point model and of the random split\<close>

lemma round_half_even_ge: "of_int m \<le> y \<Longrightarrow> m \<le> round_half_even y"
proof -
  assume "of_int m \<le> y"
  then have "m \<le> \<lfloor>y\<rfloor>" by (simp add: le_floor_iff)
  then show ?thesis by (simp add: round_half_even_def Let_def)
qed

lemma round_half_even_le: "y \<le> of_int m \<Longrightarrow> round_half_even y \<le> m"
proof -
  assume le: "y \<le> of_int m"
  then have fl: "\<lfloor>y\<rfloor> \<le> m" by (meson floor_le_iff less_add_one order_le_less_trans of_int_floor_le order_trans floor_mono floor_of_int)
  show ?thesis
  proof (cases "y = of_int \<lfloor>y\<rfloor>")
    case True
    then have "y - of_int \<lfloor>y\<rfloor> = 0" by simp
    then show ?thesis using fl by (simp add: round_half_even_def Let_def)
  next
    case False
    then have "of_int \<lfloor>y\<rfloor> < y" using of_int_floor_le [of y] by (auto simp: less_le)
    with le have "(of_int \<lfloor>y\<rfloor> :: rat) < of_int m" by simp
    then have "\<lfloor>y\<rfloor> < m" by simp
    then show ?thesis by (simp add: round_half_even_def Let_def)
  qed
qed

lemma ilog2_le_52:
  assumes "0 < x" and "x < 2 ^ 53"
  shows "ilog2 x \<le> 52"
proof (cases "1 \<le> x")
  case True
  have "nat \<lfloor>x\<rfloor> < 2 ^ 53"
  proof -
    have "\<lfloor>x\<rfloor> < 2 ^ 53" using assms(2) by (simp add: floor_less_iff)
    moreover have "0 \<le> \<lfloor>x\<rfloor>" using True by simp
    ultimately show ?thesis by (simp add: nat_less_iff)
  qed
  then have "floorlog 2 (nat \<lfloor>x\<rfloor>) \<le> 53"
    by (intro floorlog_leI) simp_all
  with True show ?thesis by (simp add: ilog2_def)
next
  case False
  then show ?thesis by (simp add: ilog2_def)
qed

lemma round_float_sandwich:
  assumes "0 < x" and "x < 2 ^ 53" and "emin \<le> 0"
  shows "(of_int m \<le> x \<longrightarrow> of_int m \<le> round_float 53 emin x) \<and>
         (x \<le> of_int m \<longrightarrow> round_float 53 emin x \<le> of_int m)"
proof -
  define e where "e = max (ilog2 \<bar>x\<bar> - (int 53 - 1)) emin"
  define k where "k = nat (- e)"
  have "ilog2 \<bar>x\<bar> \<le> 52"
    using assms(1,2) by (simp add: ilog2_le_52)
  with assms(3) have "e \<le> 0"
    by (simp add: e_def)
  then have p: "pow2 e = 1 / 2 ^ k"
    by (cases "e = 0") (simp_all add: pow2_def k_def)
  have r: "round_float 53 emin x = of_int (round_half_even (x * 2 ^ k)) / 2 ^ k"
    using assms(1) p unfolding e_def by (simp add: round_float_def Let_def)
  have lower: "of_int m \<le> round_float 53 emin x" if "of_int m \<le> x"
  proof -
    from that have "of_int (m * 2 ^ k) \<le> x * 2 ^ k"
      by simp
    then have "m * 2 ^ k \<le> round_half_even (x * 2 ^ k)"
      by (rule round_half_even_ge)
    then have "(of_int (m * 2 ^ k) :: rat) \<le> of_int (round_half_even (x * 2 ^ k))"
      by (simp only: of_int_le_iff)
    then show ?thesis
      unfolding r by (simp add: pos_le_divide_eq)
  qed
  have upper: "round_float 53 emin x \<le> of_int m" if "x \<le> of_int m"
  proof -
    from that have "x * 2 ^ k \<le> of_int (m * 2 ^ k)"
      by simp
    then have "round_half_even (x * 2 ^ k) \<le> m * 2 ^ k"
      by (rule round_half_even_le)
    then have "(of_int (round_half_even (x * 2 ^ k)) :: rat) \<le> of_int (m * 2 ^ k)"
      by (simp only: of_int_le_iff)
    then show ?thesis
      unfolding r by (simp add: pos_divide_le_eq)
  qed
  from lower upper show ?thesis by blast
qed

lemma double_max_ge: "2 ^ 53 \<le> double_max"
proof -
  have "(2::rat) ^ 53 * 1 \<le> 2 ^ 53 * 2 ^ 970"
    by (intro mult_left_mono) simp_all
  also have "\<dots> \<le> (2 ^ 53 - 1) * 2 ^ 971"
    by simp
  finally show ?thesis
    by (simp add: double_max_def)
qed

lemma round_double_small:
  assumes "\<bar>round_float 53 (- 1074) x\<bar> \<le> 2 ^ 53"
  shows "round_double x = Finite (round_float 53 (- 1074) x)"
  using assms double_max_ge unfolding round_double_def Let_def by auto

lemma round_double_of_int:
  assumes "0 \<le> n" and "n < 2 ^ 53"
  shows "round_double (of_int n) = Finite (of_int n)"
proof (cases "n = 0")
  case True
  then show ?thesis
    by (simp add: round_double_small round_float_def)
next
  case False
  with assms have pos: "(0::rat) < of_int n" and lt: "(of_int n :: rat) < 2 ^ 53"
    by (simp_all add: of_int_less_numeral_power_cancel_iff)
  from round_float_sandwich [OF pos lt, of "- 1074" n]
  have eq: "round_float 53 (- 1074) (of_int n) = of_int n"
    by simp
  show ?thesis
    using pos lt by (simp add: round_double_small eq)
qed

text \<open>The size of the validation subset that the split computes.\<close>

lemma val_size_bounds:
  assumes "0 \<le> n" and "n < 2 ^ 53" and "0 < f" and "f < 1"
  shows "\<exists>r v. int_times_float n f = Inr (Finite r) \<and> py_int (Finite r) = Inr v \<and>
           \<lfloor>of_int n * f\<rfloor> \<le> v \<and> v \<le> \<lceil>of_int n * f\<rceil> \<and> 0 \<le> v \<and> v \<le> n"
proof (cases "n = 0")
  case True
  have "round_double 0 = Finite 0"
    by (simp add: round_double_small round_float_def)
  with True show ?thesis
    by (simp add: int_times_float_def)
next
  case False
  define x where "x = of_int n * f"
  from False assms have npos: "(0::rat) < of_int n"
    by simp
  with assms(3) have xpos: "0 < x"
    by (simp add: x_def)
  have xn: "x \<le> of_int n"
    using assms(4) npos by (simp add: x_def mult_le_cancel_left2 less_imp_le)
  have nlt: "(of_int n :: rat) < 2 ^ 53"
    using assms(2) by (simp add: of_int_less_numeral_power_cancel_iff)
  with xn have xlt: "x < 2 ^ 53"
    by simp
  define r where "r = round_float 53 (- 1074) x"
  have lo: "of_int \<lfloor>x\<rfloor> \<le> r" and hi: "r \<le> of_int \<lceil>x\<rceil>" and rn: "r \<le> of_int n"
    using round_float_sandwich [OF xpos xlt, of "- 1074" "\<lfloor>x\<rfloor>"]
      round_float_sandwich [OF xpos xlt, of "- 1074" "\<lceil>x\<rceil>"]
      round_float_sandwich [OF xpos xlt, of "- 1074" n] xn
    by (simp_all add: r_def)
  have fl0: "0 \<le> \<lfloor>x\<rfloor>"
    using xpos by simp
  then have r0: "0 \<le> r"
    using lo by (meson of_int_0_le_iff order_trans)
  have "\<bar>r\<bar> \<le> 2 ^ 53"
    using r0 rn nlt by simp
  then have rd: "round_double x = Finite r"
    unfolding r_def by (rule round_double_small)
  have conv: "round_double (of_int n) = Finite (of_int n)"
    using assms(1,2) by (rule round_double_of_int)
  have prod: "int_times_float n f = Inr (Finite r)"
    by (simp add: int_times_float_def conv rd [unfolded x_def])
  have v: "py_int (Finite r) = Inr \<lfloor>r\<rfloor>"
    using r0 by simp
  have b1: "\<lfloor>x\<rfloor> \<le> \<lfloor>r\<rfloor>"
    using lo by (simp add: le_floor_iff)
  have b2: "\<lfloor>r\<rfloor> \<le> \<lceil>x\<rceil>"
    using hi by (meson floor_le_iff less_add_one of_int_floor_le order_trans floor_mono floor_of_int)
  have b3: "\<lfloor>r\<rfloor> \<le> n"
    using rn by (metis floor_mono floor_of_int)
  have b0: "0 \<le> \<lfloor>r\<rfloor>"
    using r0 by simp
  show ?thesis
    using prod v b1 b2 b3 b0 unfolding x_def by blast
qed


lemma is_randperm_length: "is_randperm n perm \<Longrightarrow> length perm = n"
  unfolding is_randperm_def by (metis card_lessThan distinct_card)

lemma py_slice_take:
  "0 \<le> t \<Longrightarrow> t \<le> int (length xs) \<Longrightarrow> py_slice xs (t - t) t = take (nat t) xs"
  by (simp add: py_slice_def Let_def min_def)

lemma py_slice_drop:
  "0 \<le> t \<Longrightarrow> t \<le> n \<Longrightarrow> n = int (length xs) \<Longrightarrow> py_slice xs (n - (n - t)) n = drop (nat t) xs"
  by (simp add: py_slice_def Let_def min_def)

lemma random_split_two:
  assumes "0 \<le> v" and "v \<le> int (len ds)" and "length perm = len ds"
  shows "random_split perm ds [int (len ds) - v, v] =
           Inr [\<lparr>dataset = ds, indices = take (nat (int (len ds) - v)) perm\<rparr>,
                \<lparr>dataset = ds, indices = drop (nat (int (len ds) - v)) perm\<rparr>]"
proof -
  define t where "t = int (len ds) - v"
  have t: "0 \<le> t" "t \<le> int (length perm)" and v: "v = int (len ds) - t"
    using assms by (simp_all add: t_def)
  have a: "py_slice perm (t - t) t = take (nat t) perm"
    using t by (rule py_slice_take)
  have b: "py_slice perm (int (len ds) - (int (len ds) - t)) (int (len ds)) = drop (nat t) perm"
    using t assms(3) by (intro py_slice_drop) simp_all
  have cut: "split_at perm ds [t, int (len ds) - t] =
      [\<lparr>dataset = ds, indices = take (nat t) perm\<rparr>,
       \<lparr>dataset = ds, indices = drop (nat t) perm\<rparr>]"
    using a b by (simp add: split_at_def)
  show ?thesis
  proof (cases "len ds = 1")
    case True
    with t assms have "t = 0 \<or> t = 1"
      by (auto simp: t_def)
    with True cut show ?thesis
      unfolding t_def [symmetric] v by (auto simp: random_split_def)
  next
    case False
    with cut show ?thesis
      unfolding t_def [symmetric] v by (simp add: random_split_def)
  qed
qed

lemma dm_setup_split:
  assumes "int_times_float (int (length (dm_dataframe self))) (val_split self) = Inr p"
    and "py_int p = Inr v" and "0 \<le> v" and "v \<le> int (length (dm_dataframe self))"
    and "length perm = length (dm_dataframe self)"
  shows "dm_setup perm self =
           Inr (self\<lparr>train_dataset :=
                       Some \<lparr>dataset = get_dataset self,
                             indices = take (nat (int (length (dm_dataframe self)) - v)) perm\<rparr>,
                     val_dataset :=
                       Some \<lparr>dataset = get_dataset self,
                             indices = drop (nat (int (length (dm_dataframe self)) - v)) perm\<rparr>\<rparr>)"
proof -
  have l: "len (get_dataset self) = length (dm_dataframe self)"
    by (simp add: len_def get_dataset_def)
  have "random_split perm (get_dataset self) [int (len (get_dataset self)) - v, v] =
           Inr [\<lparr>dataset = get_dataset self, indices = take (nat (int (len (get_dataset self)) - v)) perm\<rparr>,
                \<lparr>dataset = get_dataset self, indices = drop (nat (int (len (get_dataset self)) - v)) perm\<rparr>]"
    using assms(3,4,5) by (intro random_split_two) (simp_all add: l)
  then show ?thesis
    using assms(1,2) by (simp add: dm_setup_def Let_def get_dataset_def [symmetric] l)
qed


lemma take_drop_partition:
  assumes "is_randperm n perm"
  shows "set (take t perm) \<inter> set (drop t perm) = {} \<and>
         set (take t perm) \<union> set (drop t perm) = {..<n} \<and>
         distinct (take t perm) \<and> distinct (drop t perm)"
proof -
  from assms have d: "distinct perm" and s: "set perm = {..<n}"
    by (simp_all add: is_randperm_def)
  have "distinct (take t perm @ drop t perm)"
    using d by simp
  then have "set (take t perm) \<inter> set (drop t perm) = {}"
    by (simp only: distinct_append)
  moreover have "set (take t perm) \<union> set (drop t perm) = set perm"
    by (metis append_take_drop_id set_append)
  ultimately show ?thesis
    using d s by simp
qed

text \<open>
  What \<open>setup\<close> stores, for a table of N rows (N below \<open>2 ^ 53\<close>), a validation
  fraction strictly between 0 and 1 and a permutation of the N positions: with
  \<open>v = int(N * val_split)\<close>, the product taken in double precision, the training
  subset is the first \<open>N - v\<close> positions of the permutation and the validation subset
  the last \<open>v\<close>.
\<close>

lemma dm_setup_partition:
  assumes "is_randperm (length (dm_dataframe self)) perm"
    and "length (dm_dataframe self) < 2 ^ 53"
    and "0 < val_split self" and "val_split self < 1"
  shows "\<exists>r v. int_times_float (int (length (dm_dataframe self))) (val_split self) = Inr (Finite r) \<and>
           py_int (Finite r) = Inr (int v) \<and> v \<le> length (dm_dataframe self) \<and>
           \<lfloor>of_nat (length (dm_dataframe self)) * val_split self\<rfloor> \<le> int v \<and>
           int v \<le> \<lceil>of_nat (length (dm_dataframe self)) * val_split self\<rceil> \<and>
           dm_setup perm self =
             Inr (self\<lparr>train_dataset := Some \<lparr>dataset = get_dataset self,
                         indices = take (length (dm_dataframe self) - v) perm\<rparr>,
                       val_dataset := Some \<lparr>dataset = get_dataset self,
                         indices = drop (length (dm_dataframe self) - v) perm\<rparr>\<rparr>)"
proof -
  define n where "n = length (dm_dataframe self)"
  have n53: "int n < 2 ^ 53"
    using assms(2) unfolding n_def by (metis of_nat_less_numeral_power_cancel_iff)
  from val_size_bounds [of "int n" "val_split self"] n53 assms(3,4)
  obtain r w where prod: "int_times_float (int n) (val_split self) = Inr (Finite r)"
    and pv: "py_int (Finite r) = Inr w"
    and lo: "\<lfloor>of_int (int n) * val_split self\<rfloor> \<le> w"
    and hi: "w \<le> \<lceil>of_int (int n) * val_split self\<rceil>"
    and w0: "0 \<le> w" and wn: "w \<le> int n"
    by auto
  define v where "v = nat w"
  have w: "w = int v" and vn: "v \<le> n"
    using w0 wn by (simp_all add: v_def)
  have len: "length perm = n"
    using assms(1) unfolding n_def by (rule is_randperm_length)
  have t: "nat (int n - w) = n - v"
    using w by simp
  have res: "dm_setup perm self =
      Inr (self\<lparr>train_dataset := Some \<lparr>dataset = get_dataset self, indices = take (n - v) perm\<rparr>,
                val_dataset := Some \<lparr>dataset = get_dataset self, indices = drop (n - v) perm\<rparr>\<rparr>)"
    using dm_setup_split [OF prod [unfolded n_def] pv w0 wn [unfolded n_def] len [unfolded n_def]]
      t [unfolded n_def]
    unfolding n_def by simp
  show ?thesis
    apply (rule exI [of _ r])
    apply (rule exI [of _ v])
    using prod pv lo hi vn res unfolding w n_def [symmetric]
    by simp
qed

text \<open>
  C4 (amended). For a table of N rows (N below \<open>2 ^ 53\<close>), a validation fraction f
  strictly between 0 and 1 and any permutation drawn by the random source, the method
  \<open>setup\<close> succeeds and stores two subsets whose index lists are duplicate-free,
  disjoint and together cover all N positions. The validation subset has exactly
  \<open>int(N * f)\<close> elements, the product being taken in double precision, which is
  \<open>floor(N * f)\<close> or, when the product rounds up to the next integer, one more; the
  training subset has the N minus that many others.
\<close>

theorem random_split_partition:
  assumes "is_randperm (length (dm_dataframe self)) perm"
    and "length (dm_dataframe self) < 2 ^ 53"
    and "0 < val_split self" and "val_split self < 1"
  shows "\<exists>train val product.
           dm_setup perm self = Inr (self\<lparr>train_dataset := Some train, val_dataset := Some val\<rparr>) \<and>
           dataset train = get_dataset self \<and> dataset val = get_dataset self \<and>
           distinct (indices train) \<and> distinct (indices val) \<and>
           set (indices train) \<inter> set (indices val) = {} \<and>
           set (indices train) \<union> set (indices val) = {..<length (dm_dataframe self)} \<and>
           int_times_float (int (length (dm_dataframe self))) (val_split self) = Inr product \<and>
           py_int product = Inr (int (length (indices val))) \<and>
           length (indices train) = length (dm_dataframe self) - length (indices val) \<and>
           length (indices train) + length (indices val) = length (dm_dataframe self) \<and>
           \<lfloor>of_nat (length (dm_dataframe self)) * val_split self\<rfloor> \<le> int (length (indices val)) \<and>
           int (length (indices val)) \<le> \<lceil>of_nat (length (dm_dataframe self)) * val_split self\<rceil>"
proof -
  define n where "n = length (dm_dataframe self)"
  from dm_setup_partition [OF assms]
  obtain r v where prod: "int_times_float (int n) (val_split self) = Inr (Finite r)"
    and pv: "py_int (Finite r) = Inr (int v)" and vn: "v \<le> n"
    and lo: "\<lfloor>of_nat n * val_split self\<rfloor> \<le> int v"
    and hi: "int v \<le> \<lceil>of_nat n * val_split self\<rceil>"
    and res: "dm_setup perm self =
      Inr (self\<lparr>train_dataset := Some \<lparr>dataset = get_dataset self, indices = take (n - v) perm\<rparr>,
                val_dataset := Some \<lparr>dataset = get_dataset self, indices = drop (n - v) perm\<rparr>\<rparr>)"
    unfolding n_def by blast
  have len: "length perm = n"
    using assms(1) unfolding n_def by (rule is_randperm_length)
  have part: "set (take (n - v) perm) \<inter> set (drop (n - v) perm) = {} \<and>
         set (take (n - v) perm) \<union> set (drop (n - v) perm) = {..<n} \<and>
         distinct (take (n - v) perm) \<and> distinct (drop (n - v) perm)"
    using assms(1) unfolding n_def by (rule take_drop_partition)
  have lv: "length (drop (n - v) perm) = v" and lt: "length (take (n - v) perm) = n - v"
    using vn by (simp_all add: len)
  show ?thesis
    apply (rule exI [of _ "\<lparr>dataset = get_dataset self, indices = take (n - v) perm\<rparr>"])
    apply (rule exI [of _ "\<lparr>dataset = get_dataset self, indices = drop (n - v) perm\<rparr>"])
    apply (rule exI [of _ "Finite r"])
    using res part lv lt prod pv lo hi vn unfolding n_def [symmetric]
    by simp
qed

lemma int_times_float_eval:
  assumes "0 \<le> n" and "n < 2 ^ 53"
    and "round_float 53 (- 1074) (of_int n * f) = r" and "\<bar>r\<bar> \<le> 2 ^ 53"
  shows "int_times_float n f = Inr (Finite r)"
proof -
  have "round_double (of_int n) = Finite (of_int n)"
    using assms(1,2) by (rule round_double_of_int)
  moreover have "round_double (of_int n * f) = Finite r"
    using round_double_small [of "of_int n * f"] assms(3,4) by simp
  ultimately show ?thesis
    by (simp add: int_times_float_def)
qed

lemma round_third: "round_float 53 (- 1074) (3 * double_third) = 1"
  by code_simp

lemma round_fifth_100: "round_float 53 (- 1074) (100 * double_0_2) = 20"
  by code_simp


lemma three_module_setup:
  "dm_setup [0, 1, 2] three_module =
     Inr (three_module\<lparr>train_dataset := Some \<lparr>dataset = get_dataset three_module, indices = [0, 1]\<rparr>,
                        val_dataset := Some \<lparr>dataset = get_dataset three_module, indices = [2]\<rparr>\<rparr>)"
proof -
  have p: "int_times_float (int (length (dm_dataframe three_module))) (val_split three_module) =
      Inr (Finite 1)"
    using int_times_float_eval [of 3 double_third 1] round_third
    by (simp add: three_module_def example_module_def)
  have "dm_setup [0, 1, 2] three_module =
      Inr (three_module\<lparr>train_dataset := Some \<lparr>dataset = get_dataset three_module,
              indices = take (nat (int (length (dm_dataframe three_module)) - 1)) [0, 1, 2]\<rparr>,
          val_dataset := Some \<lparr>dataset = get_dataset three_module,
              indices = drop (nat (int (length (dm_dataframe three_module)) - 1)) [0, 1, 2]\<rparr>\<rparr>)"
    by (rule dm_setup_split [OF p]) (simp_all add: three_module_def example_module_def)
  then show ?thesis
    by (simp add: three_module_def example_module_def)
qed

text \<open>
  C4 as stated fails: on a table of three rows with the validation fraction
  0.3333333333333333, \<open>floor(N * f)\<close> is 0, but the double product \<open>3 * f\<close> rounds
  to 1.0 and the validation subset gets one of the three rows.
\<close>

theorem random_split_floor_counterexample:
  "dm_setup [0, 1, 2] three_module =
     Inr (three_module\<lparr>train_dataset := Some \<lparr>dataset = get_dataset three_module, indices = [0, 1]\<rparr>,
                        val_dataset := Some \<lparr>dataset = get_dataset three_module, indices = [2]\<rparr>\<rparr>) \<and>
   is_randperm (length (dm_dataframe three_module)) [0, 1, 2] \<and>
   0 < val_split three_module \<and> val_split three_module < 1 \<and>
   \<lfloor>of_nat (length (dm_dataframe three_module)) * val_split three_module\<rfloor> = 0 \<and>
   length [2 :: nat] \<noteq> nat \<lfloor>of_nat (length (dm_dataframe three_module)) * val_split three_module\<rfloor>"
proof -
  have f: "\<lfloor>of_nat (length (dm_dataframe three_module)) * val_split three_module\<rfloor> = 0"
    by (simp add: three_module_def example_module_def double_third_def floor_eq_iff)
  have r: "is_randperm (length (dm_dataframe three_module)) [0, 1, 2]"
    by (auto simp: is_randperm_def three_module_def example_module_def)
  have v: "0 < val_split three_module \<and> val_split three_module < 1"
    by (simp add: three_module_def example_module_def double_third_def)
  show ?thesis
    using three_module_setup f r v by simp
qed


lemma hundred_module_setup:
  "dm_setup [0..<100] hundred_module =
     Inr (hundred_module\<lparr>train_dataset := Some \<lparr>dataset = get_dataset hundred_module, indices = take 80 [0..<100]\<rparr>,
                          val_dataset := Some \<lparr>dataset = get_dataset hundred_module, indices = drop 80 [0..<100]\<rparr>\<rparr>)"
proof -
  have n: "length (dm_dataframe hundred_module) = 100"
    by (simp add: hundred_module_def example_module_def)
  have f: "val_split hundred_module = double_0_2"
    by (simp add: hundred_module_def example_module_def)
  have p: "int_times_float (int (length (dm_dataframe hundred_module))) (val_split hundred_module) =
      Inr (Finite 20)"
    using int_times_float_eval [of 100 double_0_2 20] round_fifth_100
    by (simp add: n f)
  have "dm_setup [0..<100] hundred_module =
      Inr (hundred_module\<lparr>train_dataset := Some \<lparr>dataset = get_dataset hundred_module,
              indices = take (nat (int (length (dm_dataframe hundred_module)) - 20)) [0..<100]\<rparr>,
          val_dataset := Some \<lparr>dataset = get_dataset hundred_module,
              indices = drop (nat (int (length (dm_dataframe hundred_module)) - 20)) [0..<100]\<rparr>\<rparr>)"
    by (rule dm_setup_split [OF p]) (simp_all add: n)
  then show ?thesis
    by (simp add: n)
qed

theorem random_split_partition_witness:
  "is_randperm (length (dm_dataframe hundred_module)) [0..<100] \<and>
   length (dm_dataframe hundred_module) < 2 ^ 53 \<and>
   0 < val_split hundred_module \<and> val_split hundred_module < 1 \<and>
   (\<exists>train val.
      dm_setup [0..<100] hundred_module =
        Inr (hundred_module\<lparr>train_dataset := Some train, val_dataset := Some val\<rparr>) \<and>
      length (indices train) = 80 \<and> length (indices val) = 20 \<and>
      set (indices train) \<inter> set (indices val) = {} \<and>
      set (indices train) \<union> set (indices val) = {..<100})"
proof -
  have n: "length (dm_dataframe hundred_module) = 100"
    by (simp add: hundred_module_def example_module_def)
  have f: "val_split hundred_module = double_0_2"
    by (simp add: hundred_module_def example_module_def)
  have h1: "is_randperm (length (dm_dataframe hundred_module)) [0..<100]"
    unfolding n is_randperm_def by (simp add: atLeast0LessThan)
  have h2: "length (dm_dataframe hundred_module) < 2 ^ 53"
    by (simp add: n)
  have h3: "0 < val_split hundred_module" and h4: "val_split hundred_module < 1"
    by (simp_all add: f double_0_2_def)
  from random_split_partition [OF h1 h2 h3 h4]
  obtain train val where
    res: "dm_setup [0..<100] hundred_module =
        Inr (hundred_module\<lparr>train_dataset := Some train, val_dataset := Some val\<rparr>)"
    and disj: "set (indices train) \<inter> set (indices val) = {}"
    and cover: "set (indices train) \<union> set (indices val) = {..<length (dm_dataframe hundred_module)}"
    by blast
  from res hundred_module_setup
  have eq: "hundred_module\<lparr>train_dataset := Some train, val_dataset := Some val\<rparr> =
      hundred_module\<lparr>train_dataset := Some \<lparr>dataset = get_dataset hundred_module, indices = take 80 [0..<100]\<rparr>,
                          val_dataset := Some \<lparr>dataset = get_dataset hundred_module, indices = drop 80 [0..<100]\<rparr>\<rparr>"
    by simp
  have "train_dataset (hundred_module\<lparr>train_dataset := Some train, val_dataset := Some val\<rparr>) = Some train"
    and "val_dataset (hundred_module\<lparr>train_dataset := Some train, val_dataset := Some val\<rparr>) = Some val"
    by simp_all
  then have tr: "indices train = take 80 [0..<100]" and va: "indices val = drop 80 [0..<100]"
    unfolding eq by auto
  have "length (indices train) = 80" and "length (indices val) = 20"
    unfolding tr va by simp_all
  with res disj cover h1 h2 h3 h4 show ?thesis
    unfolding n by blast
qed

section \<open>The fold argument\<close>

lemma fold_module_init:
  "PovertyDataModule_init fold_files default_args [(''fold'', k)] = Inr fold_module"
  by (simp add: PovertyDataModule_init_def fold_files_def default_args_def fold_module_def
      example_module_def double_0_2_def)





text \<open>
  C10. The constructor never reads its extra keyword arguments: two constructions that
  differ only in them (for instance one with \<open>fold\<close> and one without) give the same
  result, an error in neither or in both, and the same split for every permutation drawn.
\<close>

theorem extra_keyword_arguments_ignored:
  "PovertyDataModule_init files args kwargs = PovertyDataModule_init files args kwargs' \<and>
   (case PovertyDataModule_init files args kwargs of
      Inl e \<Rightarrow> Inl e | Inr dm \<Rightarrow> dm_setup perm dm) =
   (case PovertyDataModule_init files args kwargs' of
      Inl e \<Rightarrow> Inl e | Inr dm \<Rightarrow> dm_setup perm dm)"
  by (simp add: PovertyDataModule_init_def)

theorem extra_keyword_arguments_ignored_witness:
  "PovertyDataModule_init fold_files default_args [(''fold'', 3 :: int)] = Inr fold_module \<and>
   PovertyDataModule_init fold_files default_args ([] :: (string \<times> int) list) = Inr fold_module"
  using extra_keyword_arguments_ignored [of fold_files default_args "[(''fold'', 3 :: int)]"
      "[] :: (string \<times> int) list"] fold_module_init [of "3 :: int"]
  by simp

section \<open>Properties of the item accessor\<close>

lemma indexes_but_last: "py_slice (indexes src) 0 (- 1) = [1..<count src]"
proof (cases "count src")
  case 0
  then show ?thesis by (simp add: py_slice_def indexes_def)
next
  case (Suc c)
  have "take c [1..<Suc (Suc c)] = [1..<Suc c]"
    by (simp add: take_upt)
  with Suc show ?thesis
    by (simp add: py_slice_def indexes_def Let_def)
qed

lemma setitem_band_Inr:
  "setitem_band t k arr = Inr t' \<Longrightarrow> \<exists>a. broadcast_band arr = Inr a \<and> k < length t \<and> t' = t[k := a]"
  by (auto simp: setitem_band_def split: if_splits sum.splits)

text \<open>Two buffers of one length that agree on a set of positions stay so band by band.\<close>

lemma read_bands_agree:
  assumes "length t1 = length t2" and "\<forall>k \<in> W. t1 ! k = t2 ! k"
  shows "case read_bands src bs t1 of
           Inl e \<Rightarrow> read_bands src bs t2 = Inl e
         | Inr t1' \<Rightarrow> (\<exists>t2'. read_bands src bs t2 = Inr t2' \<and> length t1' = length t2' \<and>
               length t1' = length t1 \<and>
               (\<forall>k. k \<in> W \<or> (\<exists>b \<in> set bs. b - 1 = k) \<longrightarrow> t1' ! k = t2' ! k))"
  using assms
proof (induction bs arbitrary: t1 t2 W)
  case Nil
  then show ?case by simp
next
  case (Cons b bs)
  show ?case
  proof (cases "setitem_band t1 (b - 1) (read_band src b)")
    case (Inl e)
    then have "setitem_band t2 (b - 1) (read_band src b) = Inl e"
      using Cons.prems(1) by (auto simp: setitem_band_def split: if_splits sum.splits)
    with Inl show ?thesis by simp
  next
    case (Inr u1)
    then obtain a where a: "broadcast_band (read_band src b) = Inr a"
      and lt: "b - 1 < length t1" and u1: "u1 = t1[b - 1 := a]"
      by (auto dest: setitem_band_Inr)
    define u2 where "u2 = t2[b - 1 := a]"
    have s2: "setitem_band t2 (b - 1) (read_band src b) = Inr u2"
      using a lt Cons.prems(1) by (simp add: setitem_band_def u2_def)
    have len: "length u1 = length u2"
      using Cons.prems(1) by (simp add: u1 u2_def)
    have agree: "\<forall>k \<in> insert (b - 1) W. u1 ! k = u2 ! k"
    proof
      fix k assume "k \<in> insert (b - 1) W"
      then show "u1 ! k = u2 ! k"
        using Cons.prems lt by (cases "k = b - 1") (simp_all add: u1 u2_def)
    qed
    from Cons.IH [OF len agree]
    have IH: "case read_bands src bs u1 of
           Inl e \<Rightarrow> read_bands src bs u2 = Inl e
         | Inr t1' \<Rightarrow> (\<exists>t2'. read_bands src bs u2 = Inr t2' \<and> length t1' = length t2' \<and>
               length t1' = length u1 \<and>
               (\<forall>k. k \<in> insert (b - 1) W \<or> (\<exists>b \<in> set bs. b - 1 = k) \<longrightarrow> t1' ! k = t2' ! k))" .
    show ?thesis
    proof (cases "read_bands src bs u1")
      case (Inl e)
      with IH Inr s2 show ?thesis by simp
    next
      case r: (Inr t1')
      with IH obtain t2' where "read_bands src bs u2 = Inr t2'" and "length t1' = length t2'"
        and "length t1' = length u1"
        and "\<forall>k. k \<in> insert (b - 1) W \<or> (\<exists>b \<in> set bs. b - 1 = k) \<longrightarrow> t1' ! k = t2' ! k"
        by auto
      then show ?thesis
        using Inr s2 r u1 by auto
    qed
  qed
qed

lemma np_empty_length: "length (np_empty u) = tile_bands"
  by (simp add: np_empty_def)

text \<open>When every position of the buffer is written, what the buffer held does not matter.\<close>

lemma read_bands_overwrite:
  assumes "tile_bands < c"
  shows "read_bands src [1..<c] (np_empty u1) = read_bands src [1..<c] (np_empty u2)"
proof -
  have len: "length (np_empty u1) = length (np_empty u2)"
    by (simp add: np_empty_length)
  have none: "\<forall>k \<in> {}. np_empty u1 ! k = np_empty u2 ! k"
    by simp
  note ag = read_bands_agree [OF len none, of src "[1..<c]"]
  show ?thesis
  proof (cases "read_bands src [1..<c] (np_empty u1)")
    case (Inl e)
    with ag show ?thesis by simp
  next
    case (Inr t1')
    with ag obtain t2' where r2: "read_bands src [1..<c] (np_empty u2) = Inr t2'"
      and l: "length t1' = length t2'" and l1: "length t1' = tile_bands"
      and eq: "\<And>k. \<exists>b \<in> set [1..<c]. b - 1 = k \<Longrightarrow> t1' ! k = t2' ! k"
      by (auto simp: np_empty_length)
    have "t1' = t2'"
    proof (rule nth_equalityI [OF l])
      fix k assume "k < length t1'"
      with l1 assms have "Suc k \<in> set [1..<c]" by simp
      then have "\<exists>b \<in> set [1..<c]. b - 1 = k" by (intro bexI [of _ "Suc k"]) simp_all
      then show "t1' ! k = t2' ! k" by (rule eq)
    qed
    with Inr r2 show ?thesis by simp
  qed
qed


lemma tile_size_facts: "0 < tile_size" "tile_size \<noteq> 1"
  by (simp_all add: tile_size_def)

lemma broadcast_valid:
  assumes "height src = tile_size" and "width src = tile_size"
  shows "broadcast_band (read_band src b) = Inr (read_band src b)"
proof -
  define arr where "arr = read_band src b"
  have h: "length arr = tile_size"
    by (simp add: arr_def read_band_def assms)
  have cell: "arr ! i ! j = pixel src b i j" if "i < tile_size" "j < tile_size" for i j
    using that by (simp add: arr_def read_band_def assms)
  have "[0..<tile_size] = 0 # [1..<tile_size]"
    using tile_size_facts(1) by (simp add: upt_conv_Cons)
  then have w: "(case arr of [] \<Rightarrow> 0 | line # _ \<Rightarrow> length line) = tile_size"
    using tile_size_facts(1) by (simp add: arr_def read_band_def assms)
  have "map (\<lambda>i. map (\<lambda>j. arr ! i ! j) [0..<tile_size]) [0..<tile_size] =
      map (\<lambda>i. map (\<lambda>j. pixel src b i j) [0..<tile_size]) [0..<tile_size]"
    by (intro map_cong refl) (simp add: cell)
  also have "\<dots> = arr"
    by (simp add: arr_def read_band_def assms)
  finally have "map (\<lambda>i. map (\<lambda>j. arr ! i ! j) [0..<tile_size]) [0..<tile_size] = arr" .
  then show ?thesis
    unfolding arr_def [symmetric] broadcast_band_def Let_def h w
    using tile_size_facts by simp
qed

lemma read_bands_append:
  "read_bands src (xs @ ys) t =
     (case read_bands src xs t of Inl e \<Rightarrow> Inl e | Inr t' \<Rightarrow> read_bands src ys t')"
  by (induction xs arbitrary: t) (simp_all split: sum.splits)

lemma read_bands_valid:
  assumes "height src = tile_size" and "width src = tile_size"
  shows "c \<le> Suc (length t) \<Longrightarrow>
     read_bands src [1..<c] t =
       Inr (map (\<lambda>k. if Suc k < c then read_band src (Suc k) else t ! k) [0..<length t])"
proof (induction c)
  case 0
  then show ?case by (simp add: map_nth)
next
  case (Suc c)
  show ?case
  proof (cases "c = 0")
    case True
    then show ?thesis by (simp add: map_nth)
  next
    case False
    define t' where "t' = map (\<lambda>k. if Suc k < c then read_band src (Suc k) else t ! k) [0..<length t]"
    from Suc.prems have c: "c \<le> length t" by simp
    with Suc.IH have first: "read_bands src [1..<c] t = Inr t'"
      by (simp add: t'_def)
    have split: "[1..<Suc c] = [1..<c] @ [c]"
      using False by simp
    have lt: "c - 1 < length t'"
      using c False by (simp add: t'_def)
    have set: "setitem_band t' (c - 1) (read_band src c) = Inr (t'[c - 1 := read_band src c])"
      using lt by (simp add: setitem_band_def broadcast_valid [OF assms])
    have upd: "t'[c - 1 := read_band src c] =
        map (\<lambda>k. if Suc k < Suc c then read_band src (Suc k) else t ! k) [0..<length t]"
    proof (rule nth_equalityI)
      show "length (t'[c - 1 := read_band src c]) =
          length (map (\<lambda>k. if Suc k < Suc c then read_band src (Suc k) else t ! k) [0..<length t])"
        by (simp add: t'_def)
      fix k assume "k < length (t'[c - 1 := read_band src c])"
      then have k: "k < length t" by (simp add: t'_def)
      show "t'[c - 1 := read_band src c] ! k =
          map (\<lambda>k. if Suc k < Suc c then read_band src (Suc k) else t ! k) [0..<length t] ! k"
      proof (cases "k = c - 1")
        case True
        with False k lt show ?thesis by simp
      next
        case neq: False
        with False k show ?thesis by (auto simp: t'_def)
      qed
    qed
    show ?thesis
      unfolding split read_bands_append first using set upd by simp
  qed
qed


lemma example_tile_name:
  "tile_name_of example_dataset (observation 7 1) = ''tiles/angola_2011/7.tif''"
  by (simp add: tile_name_of_def example_dataset_def observation_def str_def str_int_def
      str_nat.simps)

lemma getitem_found:
  assumes "iloc (dataframe self) idx = Inr r" and "files (tile_name_of self r) = Some (Raster src)"
  shows "getitem files u self idx =
     (case read_bands src [1..<count src] (np_empty u) of
        Inl e \<Rightarrow> Inl e
      | Inr tile' \<Rightarrow>
          Inr (map (map (map (\<lambda>v. to_float32 (nan_to_num v)))) tile', to_float32 (wealthpooled r)))"
  unfolding getitem_def Let_def tile_name_of_def [symmetric]
  using assms by (simp add: rasterio_open_def indexes_but_last)

lemma getitem_missing:
  assumes "iloc (dataframe self) idx = Inr r" and "files (tile_name_of self r) = None"
  shows "getitem files u self idx = Inl RasterioIOError"
  unfolding getitem_def Let_def tile_name_of_def [symmetric]
  using assms by (simp add: rasterio_open_def)

lemma getitem_unreadable:
  assumes "iloc (dataframe self) idx = Inr r" and "files (tile_name_of self r) = Some Unreadable"
  shows "getitem files u self idx = Inl RasterioIOError"
  unfolding getitem_def Let_def tile_name_of_def [symmetric]
  using assms by (simp add: rasterio_open_def)

lemma getitem_no_row:
  assumes "iloc (dataframe self) idx = Inl e"
  shows "getitem files u self idx = Inl e"
  using assms by (simp add: getitem_def)

lemma float32_max_pos: "0 < float32_max"
  by (simp add: float32_max_def)



text \<open>
  The accessor on a tile file of 255 by 255 pixels with at most eight bands: the bands
  before the last come from the file, the rest of the buffer from what the memory held.
\<close>

lemma getitem_square:
  assumes "iloc (dataframe self) idx = Inr r" and "files (tile_name_of self r) = Some (Raster src)"
    and "count src \<le> 8" and "height src = tile_size" and "width src = tile_size"
  shows "getitem files u self idx =
     Inr (map (\<lambda>b. map (\<lambda>i. map (\<lambda>j. to_float32 (nan_to_num
                 (if Suc b < count src then pixel src (Suc b) i j else u b i j)))
               [0..<tile_size]) [0..<tile_size]) [0..<tile_bands],
          to_float32 (wealthpooled r))"
proof -
  have le: "count src \<le> Suc (length (np_empty u))"
    using assms(3) by (simp add: np_empty_length tile_bands_def)
  have rb: "read_bands src [1..<count src] (np_empty u) =
      Inr (map (\<lambda>k. if Suc k < count src then read_band src (Suc k) else np_empty u ! k)
             [0..<tile_bands])"
    using read_bands_valid [OF assms(4,5) le] by (simp add: np_empty_length)
  have band: "(if Suc k < count src then read_band src (Suc k) else np_empty u ! k) =
      map (\<lambda>i. map (\<lambda>j. if Suc k < count src then pixel src (Suc k) i j else u k i j)
            [0..<tile_size]) [0..<tile_size]" if "k < tile_bands" for k
    using that by (simp add: read_band_def assms(4,5) np_empty_def)
  have "map (\<lambda>k. if Suc k < count src then read_band src (Suc k) else np_empty u ! k)
          [0..<tile_bands] =
      map (\<lambda>k. map (\<lambda>i. map (\<lambda>j. if Suc k < count src then pixel src (Suc k) i j else u k i j)
            [0..<tile_size]) [0..<tile_size]) [0..<tile_bands]"
    by (intro map_cong refl) (simp add: band)
  then have rb': "read_bands src [1..<count src] (np_empty u) =
      Inr (map (\<lambda>k. map (\<lambda>i. map (\<lambda>j. if Suc k < count src then pixel src (Suc k) i j else u k i j)
            [0..<tile_size]) [0..<tile_size]) [0..<tile_bands])"
    using rb by simp
  have "getitem files u self idx =
     (case read_bands src [1..<count src] (np_empty u) of
        Inl e \<Rightarrow> Inl e
      | Inr tile' \<Rightarrow>
          Inr (map (map (map (\<lambda>v. to_float32 (nan_to_num v)))) tile', to_float32 (wealthpooled r)))"
    using assms(1,2) by (rule getitem_found)
  then show ?thesis
    unfolding rb' by (simp add: comp_def)
qed

lemma round_float32_zero: "round_float32 0 = Finite 0"
  using float32_max_pos by (simp add: round_float32_def round_float_def)



lemma example_row: "iloc (dataframe example_dataset) 0 = Inr (observation 7 1)"
  by (simp add: iloc_def example_dataset_def)

lemma example_file:
  "example_tiles c (tile_name_of example_dataset (observation 7 1)) = Some (Raster (example_raster c))"
  by (simp add: example_tile_name example_tiles_def)

lemma seven_band_fetch:
  "getitem (example_tiles 7) (constant_memory v) example_dataset 0 =
     Inr (map (\<lambda>b. map (\<lambda>i. map (\<lambda>j. to_float32 (nan_to_num
                 (if Suc b < 7 then (if Suc b = 4 then NaN else Finite 0) else v)))
               [0..<tile_size]) [0..<tile_size]) [0..<tile_bands],
          Finite 0)"
proof -
  have c: "count (example_raster 7) \<le> 8" and h: "height (example_raster 7) = tile_size"
    and w: "width (example_raster 7) = tile_size"
    by (simp_all add: example_raster_def tile_size_def)
  have l: "to_float32 (wealthpooled (observation 7 1)) = Finite 0"
    by (simp add: observation_def round_float32_zero)
  show ?thesis
    using getitem_square [where files = "example_tiles 7" and u = "constant_memory v",
        OF example_row example_file c h w]
    by (simp add: l example_raster_def constant_memory_def)
qed

lemma round_float32_one: "round_float32 1 = Finite 1"
proof -
  have "round_float 24 (- 149) 1 = 1"
    by code_simp
  moreover have "(1::rat) \<le> float32_max"
    by (simp add: float32_max_def)
  ultimately show ?thesis
    by (simp add: round_float32_def)
qed

text \<open>
  C2 as stated fails: a tile file with seven bands, fewer than the eight of the tile file
  format, raises nothing. The accessor returns a tile.
\<close>

theorem short_tile_counterexample:
  "count (example_raster 7) = 7 \<and>
   example_tiles 7 (tile_name_of example_dataset (observation 7 1)) = Some (Raster (example_raster 7)) \<and>
   \<not> raises (getitem (example_tiles 7) (constant_memory (Finite 0)) example_dataset 0)"
  using example_file [of 7]
  by (simp add: seven_band_fetch raises_def example_raster_def)

text \<open>
  C2 (amended). Fetching the tile of a record whose tile file is absent from disk raises
  the error of the raster library's \<open>open\<close> (the code has no error type of its own
  for it) and returns no tile, zero-filled or other: a missing tile is a fatal lookup
  error, never a skipped sample.
\<close>

theorem missing_tile_raises:
  assumes "iloc (dataframe self) idx = Inr r"
    and "files (tile_name_of self r) = None"
  shows "getitem files u self idx = Inl RasterioIOError \<and> raises (getitem files u self idx)"
  using getitem_missing [where files = files and u = u, OF assms]
  by (simp add: raises_def)

theorem missing_tile_raises_witness:
  "iloc (dataframe example_dataset) 0 = Inr (observation 7 1) \<and>
   Map.empty (tile_name_of example_dataset (observation 7 1)) = (None :: tile_file option) \<and>
   getitem Map.empty (constant_memory (Finite 0)) example_dataset 0 = Inl RasterioIOError \<and>
   raises (getitem Map.empty (constant_memory (Finite 0)) example_dataset 0)"
  using missing_tile_raises [where files = Map.empty and self = example_dataset and idx = 0
      and r = "observation 7 1" and u = "constant_memory (Finite 0)"] example_row
  by (simp add: raises_def)

text \<open>
  On every position whose tile file, when the row and the file exist and the file can
  be read, has at least eight bands, the accessor is a function of the table, the files
  and the position alone: two calls return the same tile and label, or raise the same
  error, whatever the memory of the fresh buffer held.
\<close>

lemma getitem_deterministic:
  assumes "tile_complete files self idx"
  shows "getitem files u1 self idx = getitem files u2 self idx"
proof (cases "iloc (dataframe self) idx")
  case (Inl e)
  then show ?thesis
    by (simp add: getitem_no_row)
next
  case (Inr r)
  show ?thesis
  proof (cases "files (tile_name_of self r)")
    case None
    with Inr show ?thesis
      by (simp add: getitem_missing)
  next
    case (Some f)
    show ?thesis
    proof (cases f)
      case Unreadable
      with Inr Some show ?thesis
        by (simp add: getitem_unreadable)
    next
      case (Raster src)
      with assms Inr Some have "tile_bands < count src"
        by (simp add: tile_complete_def tile_bands_def)
      then have "read_bands src [1..<count src] (np_empty u1) =
          read_bands src [1..<count src] (np_empty u2)"
        by (rule read_bands_overwrite)
      moreover have f: "files (tile_name_of self r) = Some (Raster src)"
        using Some Raster by simp
      ultimately show ?thesis
        using getitem_found [where files = files and u = u1, OF Inr f]
          getitem_found [where files = files and u = u2, OF Inr f]
        by simp
    qed
  qed
qed

text \<open>
  C5. Two calls of the accessor at one position over the same files must return the
  same tile and label. The code breaks this on a tile file of seven bands, which the
  data model allows: the loop reads bands 1 to 6 only, band 6 of the buffer (from 0) is
  never written, and the result shows what the memory handed out by \<open>np.empty\<close>
  held. With that memory holding 0.0 at one call and 1.0 at the other, the two results
  differ.
\<close>

theorem uninitialized_band_differs:
  "count (example_raster 7) = 7 \<and>
   example_tiles 7 (tile_name_of example_dataset (observation 7 1)) =
     Some (Raster (example_raster 7)) \<and>
   getitem (example_tiles 7) (constant_memory (Finite 0)) example_dataset 0 \<noteq>
   getitem (example_tiles 7) (constant_memory (Finite 1)) example_dataset 0"
proof -
  have "getitem (example_tiles 7) (constant_memory (Finite 0)) example_dataset 0 \<noteq>
    getitem (example_tiles 7) (constant_memory (Finite 1)) example_dataset 0"
  proof
    assume "getitem (example_tiles 7) (constant_memory (Finite 0)) example_dataset 0 =
      getitem (example_tiles 7) (constant_memory (Finite 1)) example_dataset 0"
    then have eq: "map (\<lambda>b. map (\<lambda>i. map (\<lambda>j. to_float32 (nan_to_num
                   (if Suc b < 7 then (if Suc b = 4 then NaN else Finite 0) else Finite 0)))
                 [0..<tile_size]) [0..<tile_size]) [0..<tile_bands] =
        map (\<lambda>b. map (\<lambda>i. map (\<lambda>j. to_float32 (nan_to_num
                   (if Suc b < 7 then (if Suc b = 4 then NaN else Finite 0) else Finite 1)))
                 [0..<tile_size]) [0..<tile_size]) [0..<tile_bands]"
      (is "?a = ?b")
      by (simp only: seven_band_fetch sum.inject prod.inject)
    have "?a ! 6 ! 0 ! 0 = Finite 0"
      by (simp add: tile_bands_def tile_size_def round_float32_zero)
    moreover have "?b ! 6 ! 0 ! 0 = Finite 1"
      by (simp add: tile_bands_def tile_size_def round_float32_one)
    ultimately show False
      unfolding eq by simp
  qed
  then show ?thesis
    using example_file [of 7] by (simp add: example_raster_def)
qed

section \<open>Properties of the crash handler\<close>

lemma init_registers:
  "CrashHandler_init log_dir p0 = (self, p1) \<Longrightarrow>
     handlers p1 SIGINT = Some self \<and>
     ckpt_dir_path self = Div (Path (log_dir (trainer p0))) ''crash_latest_checkpoint.ckpt''"
  by (auto simp: CrashHandler_init_def Let_def)

lemma signal_handler_run:
  "signal_handler save self SIGINT p =
     (p\<lparr>stdout := stdout p @ [''Received signal 2. Performing cleanup...'',
                               ''Saving lastest checkpoint...''],
        trainer := fst (save (trainer p) (ckpt_dir_path self))\<rparr>,
      case snd (save (trainer p) (ckpt_dir_path self)) of
        None \<Rightarrow> SystemExit 0 | Some e \<Rightarrow> Raised e)"
  by (simp add: signal_handler_def save_checkpoint_def print_def Let_def SIGINT_def
      str_int_def str_nat.simps split: prod.splits option.splits)



text \<open>
  C7. In the same situation, when the trainer's \<open>save_checkpoint\<close> raises, the handler
  catches nothing: after its two messages the exception leaves the handler, \<open>exit(0)\<close>
  is not reached, and the process ends through that exception (status 1, not 0, when
  nothing in the interrupted program catches it).
\<close>

theorem failed_save_propagates:
  assumes "CrashHandler_init log_dir p0 = (self, p1)"
    and "handlers p SIGINT = handlers p1 SIGINT"
    and "save (trainer p) (Div (Path (log_dir (trainer p0))) ''crash_latest_checkpoint.ckpt'') =
           (t, Some e)"
  shows "deliver save SIGINT p =
           Some (p\<lparr>stdout := stdout p @ [''Received signal 2. Performing cleanup...'',
                                          ''Saving lastest checkpoint...''],
                   trainer := t\<rparr>,
                 Raised e) \<and>
         exit_status (Raised e) = 1"
proof -
  from init_registers [OF assms(1)] assms(2)
  have h: "handlers p SIGINT = Some self"
    and c: "ckpt_dir_path self = Div (Path (log_dir (trainer p0))) ''crash_latest_checkpoint.ckpt''"
    by simp_all
  show ?thesis
    by (simp add: deliver_def h signal_handler_run c assms(3))
qed

theorem failed_save_propagates_witness:
  "CrashHandler_init (\<lambda>t. ''logs'') example_process =
     (\<lparr>ckpt_dir_path = Div (Path ''logs'') ''crash_latest_checkpoint.ckpt''\<rparr>,
      example_process\<lparr>handlers := [SIGINT \<mapsto>
         \<lparr>ckpt_dir_path = Div (Path ''logs'') ''crash_latest_checkpoint.ckpt''\<rparr>]\<rparr>) \<and>
   deliver failing_trainer SIGINT
       (example_process\<lparr>handlers := [SIGINT \<mapsto>
         \<lparr>ckpt_dir_path = Div (Path ''logs'') ''crash_latest_checkpoint.ckpt''\<rparr>]\<rparr>) =
     Some (\<lparr>stdout = [''Received signal 2. Performing cleanup...'', ''Saving lastest checkpoint...''],
            trainer = [],
            handlers = [SIGINT \<mapsto>
              \<lparr>ckpt_dir_path = Div (Path ''logs'') ''crash_latest_checkpoint.ckpt''\<rparr>]\<rparr>,
           Raised CheckpointError)"
proof -
  define self where "self = \<lparr>ckpt_dir_path = Div (Path ''logs'') ''crash_latest_checkpoint.ckpt''\<rparr>"
  define p1 where "p1 = example_process\<lparr>handlers := [SIGINT \<mapsto> self]\<rparr>"
  have i: "CrashHandler_init (\<lambda>t. ''logs'') example_process = (self, p1)"
    by (simp add: CrashHandler_init_def Let_def example_process_def self_def p1_def)
  have s: "failing_trainer (trainer p1) (Div (Path ''logs'') ''crash_latest_checkpoint.ckpt'') =
      ([], Some CheckpointError)"
    by (simp add: failing_trainer_def p1_def example_process_def)
  from failed_save_propagates [where log_dir = "\<lambda>t. ''logs''" and ?p0.0 = example_process
      and self = self and ?p1.0 = p1 and p = p1 and save = failing_trainer
      and t = "[]" and e = CheckpointError, OF i refl s]
  have "deliver failing_trainer SIGINT p1 =
      Some (p1\<lparr>stdout := stdout p1 @ [''Received signal 2. Performing cleanup...'',
                                          ''Saving lastest checkpoint...''],
                 trainer := []\<rparr>,
            Raised CheckpointError)"
    by simp
  then show ?thesis
    using i unfolding self_def [symmetric] p1_def [symmetric]
    by (simp add: p1_def example_process_def)
qed

section \<open>Properties of the metric check\<close>

lemma check_metric_cases:
  "check_metric py_eval metrics =
     (if resolve_metrics py_eval metrics = Inl ValueError
        then ([WarningNotDictLike, ExceptionText ValueError], Inr PyNone)
      else if resolve_metrics py_eval metrics = Inl KeyError
        then ([WarningNotRegistered, ExceptionText KeyError], Inr PyNone)
      else ([], resolve_metrics py_eval metrics))"
  by (simp add: check_metric_def split: sum.splits py_error.splits)

text \<open>Entries that are mappings with no \<open>callable\<close> key, resolved from the registry.\<close>

lemma resolve_entry_plain:
  assumes "''callable'' \<notin> fst ` set d"
  shows "resolve_entry py_eval k (PyDict d) =
     (case map_of FMETRICS_CALLABLES k of
        None \<Rightarrow> Inl KeyError
      | Some c \<Rightarrow> Inr (PyDict (dict_set ''callable'' c d)))"
  using assms by (simp add: resolve_entry_def split: option.splits)

lemma resolve_items_unregistered:
  assumes "\<forall>(k, v) \<in> set kvs. \<exists>d. v = PyDict d \<and> ''callable'' \<notin> fst ` set d"
    and "\<exists>k \<in> fst ` set kvs. map_of FMETRICS_CALLABLES k = None"
  shows "resolve_items py_eval kvs = Inl KeyError"
  using assms
proof (induction kvs)
  case Nil
  then show ?case by simp
next
  case (Cons kv kvs)
  obtain k v where kv: "kv = (k, v)" by (cases kv)
  with Cons.prems(1) obtain d where v: "v = PyDict d" and d: "''callable'' \<notin> fst ` set d"
    by auto
  show ?case
  proof (cases "map_of FMETRICS_CALLABLES k")
    case None
    then show ?thesis
      by (simp add: kv v resolve_entry_plain [OF d])
  next
    case (Some c)
    with Cons.prems(2) kv have "\<exists>k \<in> fst ` set kvs. map_of FMETRICS_CALLABLES k = None"
      by auto
    moreover from Cons.prems(1)
    have "\<forall>(k, v) \<in> set kvs. \<exists>d. v = PyDict d \<and> ''callable'' \<notin> fst ` set d"
      by simp
    ultimately have "resolve_items py_eval kvs = Inl KeyError"
      by (rule Cons.IH [rotated])
    then show ?thesis
      by (simp add: kv v resolve_entry_plain [OF d] Some)
  qed
qed

text \<open>
  C8 as stated fails: a specification whose metric entry has no value (\<open>None\<close>) is
  malformed, and \<open>check_metric\<close> raises \<open>TypeError\<close> on it, since \<open>'callable' in None\<close>
  is neither a \<open>ValueError\<close> nor a \<open>KeyError\<close>.
\<close>

theorem check_metric_raises_counterexample:
  "check_metric empty_scope (DictConfig [(''binary_accuracy'', PyNone)]) = ([], Inl TypeError)"
  by (simp add: check_metric_def resolve_metrics_def resolve_entry_def)

text \<open>
  C8 (amended). \<open>check_metric\<close> recovers from \<open>ValueError\<close> and \<open>KeyError\<close>, and
  from nothing else. For a specification that is not an OmegaConf container, and for a
  mapping whose entries are mappings without a \<open>callable\<close> entry among which some
  metric name has no registered callable, it does not raise: it prints the matching
  warning and returns \<open>None\<close>. It never raises \<open>ValueError\<close> or \<open>KeyError\<close>; any other
  exception of the resolution is raised to the caller with nothing printed.
\<close>

theorem check_metric_recovers:
  "check_metric py_eval (NotConfig v) =
     ([WarningNotDictLike, ExceptionText ValueError], Inr PyNone) \<and>
   ((\<forall>(k, v) \<in> set kvs. \<exists>d. v = PyDict d \<and> ''callable'' \<notin> fst ` set d) \<and>
    (\<exists>k \<in> fst ` set kvs. map_of FMETRICS_CALLABLES k = None) \<longrightarrow>
    check_metric py_eval (DictConfig kvs) =
      ([WarningNotRegistered, ExceptionText KeyError], Inr PyNone)) \<and>
   snd (check_metric py_eval metrics) \<noteq> Inl ValueError \<and>
   snd (check_metric py_eval metrics) \<noteq> Inl KeyError \<and>
   (resolve_metrics py_eval metrics = Inl e \<and> e \<noteq> ValueError \<and> e \<noteq> KeyError \<longrightarrow>
    check_metric py_eval metrics = ([], Inl e))"
proof (intro conjI impI)
  show "check_metric py_eval (NotConfig v) =
      ([WarningNotDictLike, ExceptionText ValueError], Inr PyNone)"
    by (simp add: check_metric_def resolve_metrics_def)
  show "check_metric py_eval (DictConfig kvs) =
      ([WarningNotRegistered, ExceptionText KeyError], Inr PyNone)"
    if "(\<forall>(k, v) \<in> set kvs. \<exists>d. v = PyDict d \<and> ''callable'' \<notin> fst ` set d) \<and>
      (\<exists>k \<in> fst ` set kvs. map_of FMETRICS_CALLABLES k = None)"
  proof -
    from that have "resolve_items py_eval kvs = Inl KeyError"
      by (intro resolve_items_unregistered) blast+
    then show ?thesis
      by (simp add: check_metric_def resolve_metrics_def)
  qed
  show "snd (check_metric py_eval metrics) \<noteq> Inl ValueError"
    by (simp add: check_metric_cases)
  show "snd (check_metric py_eval metrics) \<noteq> Inl KeyError"
    by (simp add: check_metric_cases)
  show "check_metric py_eval metrics = ([], Inl e)"
    if "resolve_metrics py_eval metrics = Inl e \<and> e \<noteq> ValueError \<and> e \<noteq> KeyError"
    using that by (simp add: check_metric_cases)
qed

theorem check_metric_recovers_witness:
  "check_metric empty_scope (DictConfig [(''binary_accuracy'', PyDict []), (''my_metric'', PyDict [])]) =
     ([WarningNotRegistered, ExceptionText KeyError], Inr PyNone) \<and>
   check_metric empty_scope (DictConfig [(''m'', PyDict [(''callable'', PyStr ''f'')])]) =
     ([], Inl NameError)"
proof -
  have a: "(\<forall>(k, v) \<in> set [(''binary_accuracy'', PyDict []), (''my_metric'', PyDict [])].
      \<exists>d. v = PyDict d \<and> ''callable'' \<notin> fst ` set d) \<and>
    (\<exists>k \<in> fst ` set [(''binary_accuracy'', PyDict []), (''my_metric'', PyDict [])].
      map_of FMETRICS_CALLABLES k = None)"
    by (simp add: FMETRICS_CALLABLES_def)
  have b: "resolve_metrics empty_scope (DictConfig [(''m'', PyDict [(''callable'', PyStr ''f'')])]) =
      Inl NameError \<and> NameError \<noteq> ValueError \<and> NameError \<noteq> KeyError"
    by (simp add: resolve_metrics_def resolve_entry_def empty_scope_def)
  from check_metric_recovers [where py_eval = empty_scope
      and kvs = "[(''binary_accuracy'', PyDict []), (''my_metric'', PyDict [])]"
      and metrics = "DictConfig [(''m'', PyDict [(''callable'', PyStr ''f'')])]"
      and e = NameError] a b
  show ?thesis by blast
qed

end
